theory Spec2Isabelle
  imports Main "HOL-Library.Word" "HOL-Library.Multiset"
begin

unbundle bit_operations_syntax

section \<open>rseq2midi: the sequence interpreter of \<^verbatim>\<open>rseq2midi.cpp\<close>\<close>

text \<open>
  The program reads an RSEQ file, interprets the bytecode of up to sixteen tracks and
  writes a standard MIDI file. The embedding follows the source function by function.
  \<^item> \<^verbatim>\<open>u8\<close> and \<^verbatim>\<open>u32\<close> are 8 and 32 bit words: arithmetic wraps, storing a
    \<^verbatim>\<open>u32\<close> into a \<^verbatim>\<open>u8\<close> truncates (\<open>ucast\<close>).
  \<^item> A \<^verbatim>\<open>FILE*\<close> opened for reading is a list of bytes with a position (a \<open>nat\<close>).
  \<^item> A \<^verbatim>\<open>vector\<close> is a list; \<^verbatim>\<open>push_back\<close> appends.
  \<^item> Undefined behaviour of the C++ (an index outside \<^verbatim>\<open>gTrack[16]\<close>, an integer
    division by zero) and a call that never returns are values of the type \<open>fault\<close>; the
    loops of \<^verbatim>\<open>rseqDo\<close> that need not end return an \<open>option\<close>, \<open>None\<close> when they run
    for ever.
  \<^item> File positions are taken as on a machine whose \<^verbatim>\<open>long\<close> holds every \<^verbatim>\<open>u32\<close>:
    \<^verbatim>\<open>fseek\<close> to a \<^verbatim>\<open>u32\<close> goes to that offset, and a \<^verbatim>\<open>u32\<close> is compared with
    \<^verbatim>\<open>ftell\<close> as a number.
  \<^item> The log file written by \<^verbatim>\<open>DebugMsg\<close> is part of the state; what \<^verbatim>\<open>printf\<close> writes
    to the terminal is left out.
\<close>

type_synonym u8 = "8 word"
type_synonym u32 = "32 word"

subsection \<open>Reading the input file\<close>

text \<open>
  \<^verbatim>\<open>fgetc\<close> returns the next byte and advances; at the end of the file it returns
  \<^verbatim>\<open>EOF\<close> (-1, all bits set once stored in a \<^verbatim>\<open>u32\<close>) and the position stays.
\<close>

definition fgetc :: "u8 list \<Rightarrow> nat \<Rightarrow> u32 \<times> nat" where
  "fgetc f p = (if p < length f then (ucast (f ! p), p + 1) else (0xFFFFFFFF, p))"

text \<open>
  \<^verbatim>\<open>for(s32 i=b-8;i>=0;i-=8) v |= fgetc(f) << i;\<close>
\<close>

function ReadBE_loop :: "u8 list \<Rightarrow> int \<Rightarrow> u32 \<Rightarrow> nat \<Rightarrow> u32 \<times> nat" where
  "ReadBE_loop f i v p =
     (if i \<ge> 0
      then (let (c, p') = fgetc f p in ReadBE_loop f (i - 8) (v OR push_bit (nat i) c) p')
      else (v, p))"
  by pat_completeness auto
termination
  by (relation "measure (\<lambda>(f, i, v, p). nat (i + 8))") auto

definition ReadBE :: "u8 list \<Rightarrow> int \<Rightarrow> nat \<Rightarrow> u32 \<times> nat" where
  "ReadBE f b p = ReadBE_loop f (b - 8) 0 p"

text \<open>
  \<^verbatim>\<open>while(1) { c = fgetc(f); t = (t<<7) | (c&127); if((c&0x80) == 0) break; }\<close>
  The loop has no bound: on a run of continuation bytes up to the end of the file it
  never returns (\<^verbatim>\<open>EOF\<close> has bit 7 set), which is the value \<open>None\<close>.
\<close>

partial_function (option) ReadVarLen_loop :: "u8 list \<Rightarrow> u32 \<Rightarrow> nat \<Rightarrow> (u32 \<times> nat) option" where
  "ReadVarLen_loop f t p =
     (let (c, p') = fgetc f p;
          t' = push_bit 7 t OR (c AND 127)
      in if c AND 0x80 = 0 then Some (t', p') else ReadVarLen_loop f t' p')"

definition ReadVarLen :: "u8 list \<Rightarrow> nat \<Rightarrow> (u32 \<times> nat) option" where
  "ReadVarLen f p = ReadVarLen_loop f 0 p"

subsection \<open>Notes and tracks\<close>

record Note_t =
  key :: u32
  pos :: u32

text \<open>
  \<^verbatim>\<open>return ((Note_t*)a)->pos - ((Note_t*)b)->pos;\<close> The difference of two
  \<^verbatim>\<open>u32\<close> is returned as an \<^verbatim>\<open>int\<close>.
\<close>

definition NoteSortCmp :: "Note_t \<Rightarrow> Note_t \<Rightarrow> int" where
  "NoteSortCmp a b = sint (pos a - pos b)"

text \<open>The transpose \<^verbatim>\<open>gTrns\<close> is an \<^verbatim>\<open>s8\<close>, eight bits like a \<^verbatim>\<open>u8\<close>; it is only ever set to 0.\<close>

record Track_t =
  gIndx :: u8
  gStat :: u8
  gTrns :: u8
  gRPNR :: u8
  gWait :: u32
  gDPos :: u32
  gGPos :: u32
  gRPos :: u32
  gNote :: "Note_t list"
  gData :: "u8 list"

text \<open>\<^verbatim>\<open>Reset\<close> and \<^verbatim>\<open>Start\<close> leave \<^verbatim>\<open>gWait\<close> as it is.\<close>

definition Reset :: "u32 \<Rightarrow> Track_t \<Rightarrow> Track_t" where
  "Reset idx t = t\<lparr>gIndx := ucast idx, gStat := 0, gTrns := 0, gRPNR := 0, gDPos := 0,
                   gGPos := 0, gRPos := 0, gNote := [], gData := []\<rparr>"

definition Start :: "u32 \<Rightarrow> Track_t \<Rightarrow> Track_t" where
  "Start adr t = t\<lparr>gStat := 1, gTrns := 0, gDPos := adr, gGPos := 0, gRPos := 0,
                   gData := [], gNote := []\<rparr>"

text \<open>
  \<^verbatim>\<open>PushDelta\<close>: the first loop counts the continuation bytes, the second writes the
  groups of seven bits, most significant first.
\<close>

function PushDelta_count :: "u32 \<Rightarrow> int \<Rightarrow> int" where
  "PushDelta_count n c = (if n > 127 then PushDelta_count (drop_bit 7 n) (c + 1) else c)"
  by pat_completeness auto
termination
proof (relation "measure (\<lambda>(n, c). unat n)")
  show "wf (measure (\<lambda>(n :: u32, c :: int). unat n))" by simp
next
  fix n :: u32 and c :: int
  assume "127 < n"
  then have "127 < unat n" by (simp add: word_less_nat_alt)
  then have "unat n div 128 < unat n" by simp
  then show "((drop_bit 7 n, c + 1), (n, c)) \<in> measure (\<lambda>(n, c). unat n)"
    by (simp add: unat_drop_bit_eq drop_bit_eq_div unat_div)
qed

function PushDelta_write :: "u32 \<Rightarrow> int \<Rightarrow> u8 list \<Rightarrow> u8 list" where
  "PushDelta_write t i d =
     (if i \<ge> 0
      then (let v = drop_bit (nat (7 * i)) t AND 127;
                v = (if i \<noteq> 0 then v OR 0x80 else v)
            in PushDelta_write t (i - 1) (d @ [ucast v]))
      else d)"
  by pat_completeness auto
termination
  by (relation "measure (\<lambda>(t, i, d). nat (i + 1))") auto

definition PushDelta :: "u32 \<Rightarrow> Track_t \<Rightarrow> Track_t" where
  "PushDelta t trk = trk\<lparr>gData := PushDelta_write t (PushDelta_count t 0) (gData trk)\<rparr>"

definition ProcDelta :: "Track_t \<Rightarrow> Track_t" where
  "ProcDelta trk = (PushDelta (gWait trk) trk)\<lparr>gWait := 0\<rparr>"

text \<open>
  \<^verbatim>\<open>Event(ev, argc, argv)\<close>: the delta, the status byte \<^verbatim>\<open>ev|gIndx\<close>, then the
  \<^verbatim>\<open>argc\<close> bytes of \<^verbatim>\<open>argv\<close> (here the list \<open>argv\<close>).
\<close>

definition Event :: "u32 \<Rightarrow> u8 list \<Rightarrow> Track_t \<Rightarrow> Track_t" where
  "Event ev argv trk =
     (let trk = ProcDelta trk
      in trk\<lparr>gData := gData trk @ [ucast (ev OR ucast (gIndx trk))] @ argv\<rparr>)"

definition mNoteOn :: "u32 \<Rightarrow> u32 \<Rightarrow> u32 \<Rightarrow> Track_t \<Rightarrow> Track_t" where
  "mNoteOn k vel time trk =
     (let trk = Event 0x90 [ucast k, ucast vel] trk;
          note = \<lparr>key = k, pos = gGPos trk + time\<rparr>
      in trk\<lparr>gNote := gNote trk @ [note]\<rparr>)"

definition mGenCtrl :: "u8 \<Rightarrow> u8 \<Rightarrow> Track_t \<Rightarrow> Track_t" where
  "mGenCtrl ctrlType ctrlData trk = Event 0xB0 [ctrlType, ctrlData] trk"

definition mVol :: "u32 \<Rightarrow> Track_t \<Rightarrow> Track_t" where
  "mVol vol trk = Event 0xB0 [0x07, ucast vol] trk"

definition mPan :: "u32 \<Rightarrow> Track_t \<Rightarrow> Track_t" where
  "mPan pan trk = Event 0xB0 [0x0A, ucast pan] trk"

definition mExp :: "u32 \<Rightarrow> Track_t \<Rightarrow> Track_t" where
  "mExp ex trk = Event 0xB0 [0x0B, ucast ex] trk"

definition mPrg :: "u32 \<Rightarrow> Track_t \<Rightarrow> Track_t" where
  "mPrg prg trk = Event 0xC0 [ucast prg] trk"

definition mBnd :: "u32 \<Rightarrow> Track_t \<Rightarrow> Track_t" where
  "mBnd bnd trk =
     (let n = 0x2000 + bnd * 16384 div 256
      in Event 0xE0 [ucast (n AND 127), ucast (drop_bit 7 n)] trk)"

definition mBndRng :: "u32 \<Rightarrow> Track_t \<Rightarrow> Track_t" where
  "mBndRng rng trk =
     (let trk = (if gRPNR trk = 0
                 then Event 0xB0 [0x64, 0] (Event 0xB0 [0x65, 0] (trk\<lparr>gRPNR := 1\<rparr>))
                 else trk)
      in Event 0xB0 [0x06, ucast rng] trk)"

definition mRPN :: "u8 \<Rightarrow> u8 \<Rightarrow> u32 \<Rightarrow> Track_t \<Rightarrow> Track_t" where
  "mRPN msb lsb data trk =
     (let trk = Event 0xB0 [0x65, lsb] trk;
          trk = Event 0xB0 [0x64, msb] trk;
          trk = Event 0xB0 [0x06, ucast data] trk
      in trk\<lparr>gRPNR := 0\<rparr>)"

definition mNRPN :: "u8 \<Rightarrow> u8 \<Rightarrow> u32 \<Rightarrow> Track_t \<Rightarrow> Track_t" where
  "mNRPN msb lsb data trk =
     (let trk = Event 0xB0 [0x63, lsb] trk;
          trk = Event 0xB0 [0x62, msb] trk;
          trk = Event 0xB0 [0x06, ucast data] trk
      in trk\<lparr>gRPNR := 0\<rparr>)"

datatype fault = IndexOutOfRange | DivisionByZero | NeverReturns

text \<open>
  \<^verbatim>\<open>u32 n = 60000000 / tmp;\<close> has no check of \<^verbatim>\<open>tmp\<close>: the division by zero is
  a fault of the model.
\<close>

definition mTmp :: "u32 \<Rightarrow> Track_t \<Rightarrow> fault + Track_t" where
  "mTmp tmp trk =
     (if tmp = 0 then Inl DivisionByZero
      else (let n = 60000000 div tmp
            in Inr (Event 0xFF [0x51, 3, ucast (drop_bit 16 n), ucast (drop_bit 8 n), ucast n] trk)))"

text \<open>
  \<^verbatim>\<open>mMetaEvent(type, len, data)\<close> is always called with \<^verbatim>\<open>len\<close> the length of
  \<^verbatim>\<open>data\<close>, a \<^verbatim>\<open>u32\<close>.
\<close>

definition mMetaEvent :: "u8 \<Rightarrow> u8 list \<Rightarrow> Track_t \<Rightarrow> Track_t" where
  "mMetaEvent type data trk =
     (let len = (word_of_nat (length data) :: u32);
          trk = Event 0xFF [type] trk;
          trk = PushDelta len trk
      in trk\<lparr>gData := gData trk @ take (unat len) data\<rparr>)"

text \<open>\<^verbatim>\<open>mEnd\<close>: the loop over \<^verbatim>\<open>gNote\<close> in vector order, then the end of track event.\<close>

fun mEnd_flush :: "Note_t list \<Rightarrow> Track_t \<Rightarrow> Track_t" where
  "mEnd_flush [] trk = trk"
| "mEnd_flush (note # notes) trk =
     (let trk = (PushDelta (gWait trk) trk)\<lparr>gWait := 0\<rparr>;
          trk = trk\<lparr>gData := gData trk @ [ucast (0x90 OR (ucast (gIndx trk) :: u32)), ucast (key note), 0]\<rparr>
      in mEnd_flush notes trk)"

definition mEnd :: "Track_t \<Rightarrow> Track_t" where
  "mEnd trk =
     (let trk = mEnd_flush (gNote trk) trk;
          trk = trk\<lparr>gNote := []\<rparr>;
          trk = Event 0xFF [0x2F, 0] trk
      in trk\<lparr>gStat := 0\<rparr>)"

text \<open>
  \<^verbatim>\<open>Wait\<close>. The notes are sorted by the C library's \<^verbatim>\<open>qsort\<close> with
  \<^verbatim>\<open>NoteSortCmp\<close>; the library function is not part of the program and is the
  parameter \<open>qs\<close> (the C standard leaves the order of elements that compare equal
  unspecified). The loop walks the vector by index and erases the notes that end within
  the wait: here \<open>kept\<close> holds the notes before the index and the second list those from
  the index on.
\<close>

fun Wait_loop :: "u32 \<Rightarrow> Note_t list \<Rightarrow> Note_t list \<Rightarrow> Track_t \<times> u32 \<Rightarrow> Track_t \<times> u32" where
  "Wait_loop pPos kept [] (trk, timeLeft) = (trk\<lparr>gNote := kept\<rparr>, timeLeft)"
| "Wait_loop pPos kept (note # notes) (trk, timeLeft) =
     (if pos note > pPos then Wait_loop pPos (kept @ [note]) notes (trk, timeLeft)
      else (let dif = pos note - gGPos trk;
                trk = PushDelta dif trk;
                trk = trk\<lparr>gData := gData trk @ [ucast (0x90 OR (ucast (gIndx trk) :: u32)), ucast (key note), 0]\<rparr>;
                trk = trk\<lparr>gGPos := gGPos trk + dif\<rparr>
            in Wait_loop pPos kept notes (trk, timeLeft - dif)))"

definition Wait :: "((Note_t \<Rightarrow> Note_t \<Rightarrow> int) \<Rightarrow> Note_t list \<Rightarrow> Note_t list) \<Rightarrow> u32 \<Rightarrow> Track_t \<Rightarrow> Track_t" where
  "Wait qs timeLeft trk =
     (let notes = (if gNote trk \<noteq> [] then qs NoteSortCmp (gNote trk) else gNote trk);
          pPos = gGPos trk + timeLeft;
          (trk, timeLeft) = Wait_loop pPos [] notes (trk, timeLeft)
      in trk\<lparr>gGPos := gGPos trk + timeLeft, gWait := gWait trk + timeLeft\<rparr>)"

subsection \<open>The interpreter\<close>

text \<open>
  What \<^verbatim>\<open>rseqDo\<close> reads and does not change: the input file, the offset of the sequence
  data \<^verbatim>\<open>gDATAHead.fOff\<close>, the labels, the two command line flags, and the library's
  \<^verbatim>\<open>qsort\<close>.
\<close>

record env =
  rseq :: "u8 list"
  mdOff :: u32
  gLabels :: "u32 \<Rightarrow> u8 list option"
  ignoreJumps :: bool
  debugCtrls :: bool
  qsort :: "(Note_t \<Rightarrow> Note_t \<Rightarrow> int) \<Rightarrow> Note_t list \<Rightarrow> Note_t list"

text \<open>
  What it changes: the sixteen tracks, the position of the input file, and the log file
  written by \<^verbatim>\<open>DebugMsg\<close>, kept as the list of the calls (format string and arguments).
\<close>

datatype arg = U u32 | S string

record state =
  gTrack :: "Track_t list"
  rpos :: nat
  dlog :: "(string \<times> arg list) list"

definition DebugMsg :: "string \<Rightarrow> arg list \<Rightarrow> state \<Rightarrow> state" where
  "DebugMsg str args s = s\<lparr>dlog := dlog s @ [(str, args)]\<rparr>"

text \<open>
  \<open>on_trk i f\<close> applies a method of \<^verbatim>\<open>Track_t\<close> to \<^verbatim>\<open>gData.gTrack[i]\<close>; \<open>rd\<close> and \<open>rdBE\<close>
  are \<^verbatim>\<open>fgetc(rseq)\<close> and \<^verbatim>\<open>ReadBE(rseq, b)\<close> on the state.
\<close>

definition on_trk :: "nat \<Rightarrow> (Track_t \<Rightarrow> Track_t) \<Rightarrow> state \<Rightarrow> state" where
  "on_trk i f s = s\<lparr>gTrack := (gTrack s)[i := f (gTrack s ! i)]\<rparr>"

definition rd :: "env \<Rightarrow> state \<Rightarrow> u32 \<times> state" where
  "rd e s = (let (c, p) = fgetc (rseq e) (rpos s) in (c, s\<lparr>rpos := p\<rparr>))"

definition rdBE :: "env \<Rightarrow> int \<Rightarrow> state \<Rightarrow> u32 \<times> state" where
  "rdBE e b s = (let (v, p) = ReadBE (rseq e) b (rpos s) in (v, s\<lparr>rpos := p\<rparr>))"

definition bytes_of :: "string \<Rightarrow> u8 list" where
  "bytes_of str = map of_char str"

text \<open>The body shared by the opcodes that only show up with \<^verbatim>\<open>debugCtrls\<close>.\<close>

definition dbg_ctrl2 :: "env \<Rightarrow> nat \<Rightarrow> u32 \<Rightarrow> state \<Rightarrow> fault + state \<times> bool" where
  "dbg_ctrl2 e i cmd s =
     (let (cdata, s) = rd e s
      in Inr (if debugCtrls e
              then on_trk i (mGenCtrl 0x26 (ucast cdata)) (on_trk i (mGenCtrl 0x70 (ucast (cmd AND 0x7F))) s)
              else s, True))"

definition dbg_ctrl1 :: "env \<Rightarrow> nat \<Rightarrow> u8 \<Rightarrow> state \<Rightarrow> fault + state \<times> bool" where
  "dbg_ctrl1 e i ctl s =
     (let (cdata, s) = rd e s
      in Inr (if debugCtrls e then on_trk i (mGenCtrl ctl (ucast cdata)) s else s, True))"

definition ctrl1 :: "env \<Rightarrow> nat \<Rightarrow> u8 \<Rightarrow> state \<Rightarrow> fault + state \<times> bool" where
  "ctrl1 e i ctl s = (let (cdata, s) = rd e s in Inr (on_trk i (mGenCtrl ctl (ucast cdata)) s, True))"

text \<open>The jump, \<^verbatim>\<open>case 0x89\<close>.\<close>

definition do_jump :: "env \<Rightarrow> nat \<Rightarrow> state \<Rightarrow> fault + state \<times> bool" where
  "do_jump e i s =
     (let (a, s) = rdBE e 24 s;
          adr = a + mdOff e;
          jumpDir = (unat adr > rpos s);
          jumpDirMsg = (if jumpDir then ''forwards'' else ''backwards'');
          takeJump = jumpDir;
          jumpMsg = (if ignoreJumps e then ''ignored'' else if takeJump then ''taken'' else ''Track End'');
          s = DebugMsg ''  Trk %02u: Jump (%s) to 0x%X\<newline>'' [U (word_of_nat i), S jumpDirMsg, U adr] s;
          msgbuf = take 31 (''Jump ('' @ jumpDirMsg @ '', '' @ jumpMsg @ '')'');
          s = on_trk i (mMetaEvent 0x06 (bytes_of msgbuf)) s
      in if \<not> ignoreJumps e
         then (if takeJump
               then Inr ((on_trk i (\<lambda>t. t\<lparr>gDPos := adr\<rparr>) s)\<lparr>rpos := unat adr\<rparr>, True)
               else Inr (on_trk i mEnd s, False))
         else Inr (s, True))"

text \<open>
  The split, \<^verbatim>\<open>case 0x88\<close>: \<^verbatim>\<open>gData.gTrack[trk].Start(adr)\<close> with \<^verbatim>\<open>trk\<close> the byte
  read, and no check against the sixteen slots.
\<close>

definition do_split :: "env \<Rightarrow> state \<Rightarrow> fault + state \<times> bool" where
  "do_split e s =
     (let (trk, s) = rdBE e 8 s;
          (a, s) = rdBE e 24 s;
          adr = a + mdOff e
      in if unat trk < length (gTrack s)
         then Inr (DebugMsg ''  Trk %02u started from 0x%X...\<newline>''
                      [U (ucast (gIndx (gTrack s ! unat trk))), U adr]
                      (on_trk (unat trk) (Start adr) s), True)
         else Inl IndexOutOfRange)"

definition do_call :: "env \<Rightarrow> nat \<Rightarrow> state \<Rightarrow> fault + state \<times> bool" where
  "do_call e i s =
     (let (a, s) = rdBE e 24 s;
          adr = mdOff e + a;
          s = on_trk i (\<lambda>t. t\<lparr>gRPos := word_of_nat (rpos s)\<rparr>) s;
          s = DebugMsg ''  Trk %02u: Call to 0x%X\<newline>'' [U (word_of_nat i), U adr] s
      in Inr ((on_trk i (\<lambda>t. t\<lparr>gDPos := adr\<rparr>) s)\<lparr>rpos := unat adr\<rparr>, True))"

definition do_return :: "nat \<Rightarrow> state \<Rightarrow> fault + state \<times> bool" where
  "do_return i s =
     (let r = gRPos (gTrack s ! i)
      in if r \<noteq> 0
         then Inr ((on_trk i (\<lambda>t. t\<lparr>gDPos := r, gRPos := 0\<rparr>) s)\<lparr>rpos := unat r\<rparr>, True)
         else Inr (s, True))"

text \<open>
  The \<^verbatim>\<open>switch(cmd)\<close> of \<^verbatim>\<open>rseqDo\<close>, case by case in the order of the source. The result
  is the new state and the flag \<^verbatim>\<open>loop\<close>.
\<close>

definition exec_cmd :: "env \<Rightarrow> nat \<Rightarrow> u32 \<Rightarrow> u32 \<Rightarrow> state \<Rightarrow> fault + state \<times> bool" where
  "exec_cmd e i cmd curpos s =
    (if cmd = 0x80 then
       (case ReadVarLen (rseq e) (rpos s) of
          None \<Rightarrow> Inl NeverReturns
        | Some (len, p) \<Rightarrow> Inr (on_trk i (Wait (qsort e) len) (s\<lparr>rpos := p\<rparr>), True))
     else if cmd = 0x81 then
       (let (c, s) = rd e s;
            s = on_trk i (mPrg (c AND 127)) s;
            (c, s) = (if c AND 0x80 \<noteq> 0 then rd e s else (c, s));
            (c, s) = (if c AND 0x80 \<noteq> 0 then rd e s else (c, s))
        in Inr (s, True))
     else if cmd = 0x88 then do_split e s
     else if cmd = 0x89 then do_jump e i s
     else if cmd = 0x8A then do_call e i s
     else if cmd = 0xB0 then dbg_ctrl2 e i cmd s
     else if cmd = 0xC0 then (let (c, s) = rd e s in Inr (on_trk i (mPan c) s, True))
     else if cmd = 0xC1 then (let (c, s) = rd e s in Inr (on_trk i (mVol c) s, True))
     else if cmd = 0xC2 then ctrl1 e i 0x27 s
     else if cmd = 0xC3 then (let (cdata, s) = rd e s in Inr (on_trk i (mNRPN 0x00 0x02 cdata) s, True))
     else if cmd = 0xC4 then (let (c, s) = rd e s in Inr (on_trk i (mBnd c) s, True))
     else if cmd = 0xC5 then (let (c, s) = rd e s in Inr (on_trk i (mBndRng c) s, True))
     else if cmd = 0xC6 then dbg_ctrl2 e i cmd s
     else if cmd = 0xC7 then dbg_ctrl2 e i cmd s
     else if cmd = 0xC8 then dbg_ctrl2 e i cmd s
     else if cmd = 0xC9 then ctrl1 e i 84 s
     else if cmd = 0xCA then ctrl1 e i 1 s
     else if cmd = 0xCB then dbg_ctrl1 e i 0x11 s
     else if cmd = 0xCC then dbg_ctrl1 e i 0x21 s
     else if cmd = 0xCD then dbg_ctrl1 e i 0x12 s
     else if cmd = 0xCE then ctrl1 e i 65 s
     else if cmd = 0xCF then ctrl1 e i 5 s
     else if cmd = 0xD0 then dbg_ctrl1 e i 73 s
     else if cmd = 0xD1 then
       (let (cdata, s) = rd e s
        in Inr (if debugCtrls e then on_trk i (mNRPN 0x01 0x64 cdata) s else s, True))
     else if cmd = 0xD2 then dbg_ctrl1 e i 91 s
     else if cmd = 0xD3 then dbg_ctrl1 e i 72 s
     else if cmd = 0xD4 then Inr (on_trk i (mGenCtrl 0x6F 0) s, True)
     else if cmd = 0xD5 then (let (c, s) = rd e s in Inr (on_trk i (mExp c) s, True))
     else if cmd = 0xD6 then dbg_ctrl2 e i cmd s
     else if cmd = 0xD8 \<or> cmd = 0xD9 \<or> cmd = 0xDA \<or> cmd = 0xDB then dbg_ctrl2 e i cmd s
     else if cmd = 0xE0 then
       (let (v, s) = rdBE e 16 s;
            cdata = (ucast v :: 16 word)
        in Inr (if debugCtrls e then on_trk i (mGenCtrl 0x10 (ucast (cdata AND 0x7F))) s else s, True))
     else if cmd = 0xE1 then
       (let (v, s) = rdBE e 16 s
        in case mTmp v (gTrack s ! i) of
             Inl x \<Rightarrow> Inl x
           | Inr t \<Rightarrow> Inr (on_trk i (\<lambda>_. t) s, True))
     else if cmd = 0xE3 then
       (let (v, s) = rdBE e 16 s
        in Inr (if debugCtrls e then on_trk i (mGenCtrl 0x70 (ucast (cmd AND 0x7F))) s else s, True))
     else if cmd = 0xFC then Inr (on_trk i (mGenCtrl 0x6F 1) s, True)
     else if cmd = 0xFD then do_return i s
     else if cmd = 0xFE then
       (let (v, s) = rdBE e 16 s
        in Inr (if debugCtrls e then on_trk i (mGenCtrl 0x70 (ucast (cmd AND 0x7F))) s else s, True))
     else if cmd = 0xFF then
       (let s = DebugMsg ''  Trk %02u End at 0x%X.\<newline>'' [U (word_of_nat i), U curpos] s
        in Inr (on_trk i mEnd s, False))
     else Inr (DebugMsg ''  WARNING: Unknown command %02X\<newline>'' [U cmd] s, True))"

text \<open>
  One turn of \<^verbatim>\<open>while(loop)\<close> for the track \<open>i\<close>: the label of the current offset, if
  any, becomes a text event (\<open>put_label\<close>); then the command byte is read; below
  \<^verbatim>\<open>0x80\<close> it is a note.
\<close>

definition curpos_of :: "env \<Rightarrow> state \<Rightarrow> u32" where
  "curpos_of e s = word_of_nat (rpos s) - mdOff e"

definition put_label :: "env \<Rightarrow> nat \<Rightarrow> state \<Rightarrow> state" where
  "put_label e i s =
     (case gLabels e (curpos_of e s) of
        None \<Rightarrow> s
      | Some data \<Rightarrow> on_trk i (mMetaEvent 0x06 data) s)"

definition step :: "env \<Rightarrow> nat \<Rightarrow> state \<Rightarrow> fault + state \<times> bool" where
  "step e i s =
     (let curpos = curpos_of e s;
          s = put_label e i s;
          (cmd, s) = rd e s
      in if cmd < 0x80
         then (let k = cmd;
                   (vel, s) = rd e s
               in case ReadVarLen (rseq e) (rpos s) of
                    None \<Rightarrow> Inl NeverReturns
                  | Some (len, p) \<Rightarrow> Inr (on_trk i (mNoteOn k vel len) (s\<lparr>rpos := p\<rparr>), True))
         else exec_cmd e i cmd curpos s)"

text \<open>
  \<^verbatim>\<open>while(loop)\<close> need not end (a backward call, the end of the file): not returning is
  \<open>None\<close>. A fault stops the run.
\<close>

partial_function (option) track_loop :: "env \<Rightarrow> nat \<Rightarrow> state \<Rightarrow> (fault + state) option" where
  "track_loop e i s =
     (case step e i s of
        Inl x \<Rightarrow> Some (Inl x)
      | Inr r \<Rightarrow> if snd r then track_loop e i (fst r) else Some (Inr (fst r)))"

text \<open>The body of \<^verbatim>\<open>for(u32 i=0;i<16;i++)\<close>, with the flag \<^verbatim>\<open>gTrkCnt\<close>.\<close>

definition track_body :: "env \<Rightarrow> nat \<Rightarrow> state \<times> bool \<Rightarrow> (fault + state \<times> bool) option" where
  "track_body e i sc =
     (let (s, gTrkCnt) = sc
      in if gStat (gTrack s ! i) = 0 then Some (Inr (s, gTrkCnt))
         else (case track_loop e i (s\<lparr>rpos := unat (gDPos (gTrack s ! i))\<rparr>) of
                 None \<Rightarrow> None
               | Some (Inl x) \<Rightarrow> Some (Inl x)
               | Some (Inr s) \<Rightarrow>
                   Some (Inr (DebugMsg ''  Trk %02u OK\<newline>'' [U (word_of_nat i)] s, True))))"

function for_tracks :: "env \<Rightarrow> nat \<Rightarrow> state \<times> bool \<Rightarrow> (fault + state \<times> bool) option" where
  "for_tracks e i sc =
     (if i < 16
      then (case track_body e i sc of
              None \<Rightarrow> None
            | Some (Inl x) \<Rightarrow> Some (Inl x)
            | Some (Inr sc') \<Rightarrow> for_tracks e (i + 1) sc')
      else Some (Inr sc))"
  by pat_completeness auto
termination
  by (relation "measure (\<lambda>(e, i, sc). 16 - i)") auto

partial_function (option) main_loop :: "env \<Rightarrow> state \<Rightarrow> (fault + state) option" where
  "main_loop e s =
     (case for_tracks e 0 (s, False) of
        None \<Rightarrow> None
      | Some (Inl x) \<Rightarrow> Some (Inl x)
      | Some (Inr r) \<Rightarrow> if snd r then main_loop e (fst r) else Some (Inr (fst r)))"

subsection \<open>Writing the MIDI file\<close>

definition Swap32 :: "u32 \<Rightarrow> u32" where
  "Swap32 x = drop_bit 24 x OR (push_bit 8 x AND 0x00FF0000) OR (drop_bit 8 x AND 0x0000FF00) OR push_bit 24 x"

definition Swap16 :: "16 word \<Rightarrow> 16 word" where
  "Swap16 x = drop_bit 8 x OR push_bit 8 x"

text \<open>
  \<^verbatim>\<open>fwrite\<close> writes the structures as they lie in memory; the program swaps every field
  first, so it is written for a little-endian machine, and that is the layout here.
\<close>

definition mem32 :: "u32 \<Rightarrow> u8 list" where
  "mem32 x = [ucast x, ucast (drop_bit 8 x), ucast (drop_bit 16 x), ucast (drop_bit 24 x)]"

definition mem16 :: "16 word \<Rightarrow> u8 list" where
  "mem16 x = [ucast x, ucast (drop_bit 8 x)]"

definition trkMax_of :: "Track_t list \<Rightarrow> u32" where
  "trkMax_of ts = word_of_nat (length (filter (\<lambda>t. gData t \<noteq> []) ts))"

definition midiHeader :: "u32 \<Rightarrow> u8 list" where
  "midiHeader trkMax =
     mem32 (Swap32 0x4D546864) @ mem32 (Swap32 6) @ mem16 (Swap16 1) @
     mem16 (Swap16 (ucast trkMax)) @ mem16 (Swap16 96)"

definition trkHead :: "u32 \<Rightarrow> u8 list" where
  "trkHead len = mem32 (Swap32 0x4D54726B) @ mem32 (Swap32 len)"

definition write_track :: "Track_t \<Rightarrow> u8 list" where
  "write_track t =
     (let len = (word_of_nat (length (gData t)) :: u32)
      in if len = 0 then [] else trkHead len @ take (unat len) (gData t))"

definition write_midi :: "Track_t list \<Rightarrow> u8 list" where
  "write_midi ts = midiHeader (trkMax_of ts) @ concat (map write_track ts)"

text \<open>
  \<^verbatim>\<open>rseqDo\<close>: start track 0 at \<^verbatim>\<open>mdOff\<close> and run the passes (\<open>decode_all\<close>), then
  write the file. The result of \<open>rseqDo\<close> is the bytes of the MIDI file.
\<close>

definition decode_all :: "env \<Rightarrow> state \<Rightarrow> (fault + state) option" where
  "decode_all e s =
     (let s = DebugMsg ''  Begin decoding...\<newline>'' [] s;
          s = DebugMsg ''  Trk %02u started from 0x%X...\<newline>''
                [U (ucast (gIndx (gTrack s ! 0))), U (mdOff e)] (on_trk 0 (Start (mdOff e)) s)
      in main_loop e s)"

definition rseqDo :: "env \<Rightarrow> state \<Rightarrow> (fault + u8 list) option" where
  "rseqDo e s =
     (case decode_all e s of
        None \<Rightarrow> None
      | Some (Inl x) \<Rightarrow> Some (Inl x)
      | Some (Inr s) \<Rightarrow> Some (Inr (write_midi (gTrack s))))"

text \<open>
  The tracks as \<^verbatim>\<open>gData.Reset()\<close> leaves them when the program starts: the structure is
  static, so it starts as zeros.
\<close>

definition zero_track :: Track_t where
  "zero_track = \<lparr>gIndx = 0, gStat = 0, gTrns = 0, gRPNR = 0, gWait = 0, gDPos = 0, gGPos = 0,
                 gRPos = 0, gNote = [], gData = []\<rparr>"

definition reset_tracks :: "Track_t list" where
  "reset_tracks = map (\<lambda>i. Reset (word_of_nat i) zero_track) [0..<16]"

definition init_state :: state where
  "init_state = \<lparr>gTrack = reset_tracks, rpos = 0, dlog = []\<rparr>"

subsection \<open>Vocabulary of the properties\<close>

text \<open>
  The bytes \<^verbatim>\<open>PushDelta\<close> appends for a tick count, and the three bytes of a note-off
  (written by the program as a note-on with velocity 0) on channel \<open>idx\<close>.
\<close>

definition delta_bytes :: "u32 \<Rightarrow> u8 list" where
  "delta_bytes t = PushDelta_write t (PushDelta_count t 0) []"

definition note_off :: "u8 \<Rightarrow> Note_t \<Rightarrow> u8 list" where
  "note_off idx note = [ucast (0x90 OR (ucast idx :: u32)), ucast (key note), 0]"

text \<open>
  The note-offs of a list of notes taken in order, each after the delta from the tick
  reached so far (first \<open>g\<close>, then the end tick of the note before), and the tick reached
  at the end.
\<close>

fun offs_from :: "u8 \<Rightarrow> u32 \<Rightarrow> Note_t list \<Rightarrow> u8 list" where
  "offs_from idx g [] = []"
| "offs_from idx g (n # ns) = delta_bytes (pos n - g) @ note_off idx n @ offs_from idx (pos n) ns"

definition reached :: "u32 \<Rightarrow> Note_t list \<Rightarrow> u32" where
  "reached g ns = (if ns = [] then g else pos (last ns))"

text \<open>The command bytes that have a \<^verbatim>\<open>case\<close> in \<^verbatim>\<open>rseqDo\<close> (a byte below 0x80 is a note).\<close>

definition known_cmd :: "u8 \<Rightarrow> bool" where
  "known_cmd c = (c < 0x80 \<or> c \<in> {0x80, 0x81, 0x88, 0x89, 0x8A, 0xB0,
      0xC0, 0xC1, 0xC2, 0xC3, 0xC4, 0xC5, 0xC6, 0xC7, 0xC8, 0xC9, 0xCA, 0xCB, 0xCC, 0xCD, 0xCE, 0xCF,
      0xD0, 0xD1, 0xD2, 0xD3, 0xD4, 0xD5, 0xD6, 0xD8, 0xD9, 0xDA, 0xDB,
      0xE0, 0xE1, 0xE3, 0xFC, 0xFD, 0xFE, 0xFF})"

text \<open>
  The target of the jump whose command byte is at the position of the file: the three
  bytes after it, big-endian, plus \<^verbatim>\<open>mdOff\<close>. And the text of its annotation.
\<close>

definition jump_adr :: "env \<Rightarrow> state \<Rightarrow> u32" where
  "jump_adr e s =
     (push_bit 16 (ucast (rseq e ! (rpos s + 1))) OR push_bit 8 (ucast (rseq e ! (rpos s + 2))) OR
      ucast (rseq e ! (rpos s + 3))) + mdOff e"

definition jump_text :: "string \<Rightarrow> string \<Rightarrow> u8 list" where
  "jump_text dir msg = bytes_of (''Jump ('' @ dir @ '', '' @ msg @ '')'')"

text \<open>
  The first \<open>n\<close> bytes of the entry track's bytecode, and the state in which
  \<^verbatim>\<open>rseqDo\<close>, called right after the reset, runs the first turn of track 0.
\<close>

definition code_at :: "env \<Rightarrow> nat \<Rightarrow> u8 list" where
  "code_at e n = take n (drop (unat (mdOff e)) (rseq e))"

definition entry_state :: "env \<Rightarrow> state" where
  "entry_state e =
     (DebugMsg ''  Trk %02u started from 0x%X...\<newline>'' [U 0, U (mdOff e)]
        (on_trk 0 (Start (mdOff e)) (DebugMsg ''  Begin decoding...\<newline>'' [] init_state)))
     \<lparr>rpos := unat (mdOff e)\<rparr>"

text \<open>The state of track \<open>i\<close> after \<open>n\<close> turns of its loop, if no turn faults.\<close>

fun run_steps :: "env \<Rightarrow> nat \<Rightarrow> nat \<Rightarrow> state \<Rightarrow> state option" where
  "run_steps e i 0 s = Some s"
| "run_steps e i (Suc n) s =
     (case step e i s of Inl x \<Rightarrow> None | Inr r \<Rightarrow> run_steps e i n (fst r))"

text \<open>
  Modelled from the spec: the insertion step of the sort below. The element is put in
  front of the first element it does not compare greater than.
\<close>

fun insert_cmp :: "('a \<Rightarrow> 'a \<Rightarrow> int) \<Rightarrow> 'a \<Rightarrow> 'a list \<Rightarrow> 'a list" where
  "insert_cmp cmp x [] = [x]"
| "insert_cmp cmp x (y # ys) = (if cmp x y \<le> 0 then x # y # ys else y # insert_cmp cmp x ys)"

text \<open>
  Modelled from the spec: the C library's \<^verbatim>\<open>qsort\<close>, which \<^verbatim>\<open>Wait\<close> calls and which is
  not part of the repository. The spec has the notes sorted by end tick with ties broken
  by insertion order, first sounding first off. So the instance is a stable insertion
  sort driven by the comparator: each element, from the last to the first, is inserted
  into the sorted rest, and so stays in front of the later elements it compares equal
  to.
\<close>

definition qsort_stable :: "('a \<Rightarrow> 'a \<Rightarrow> int) \<Rightarrow> 'a list \<Rightarrow> 'a list" where
  "qsort_stable cmp xs = foldr (insert_cmp cmp) xs []"

text \<open>
  An input whose sequence data is \<open>code\<close> at offset 0, with no labels, the flags as given
  and that \<^verbatim>\<open>qsort\<close>.
\<close>

definition env_of :: "u8 list \<Rightarrow> bool \<Rightarrow> bool \<Rightarrow> env" where
  "env_of code ij dc =
     \<lparr>rseq = code, mdOff = 0, gLabels = (\<lambda>_. None), ignoreJumps = ij, debugCtrls = dc,
      qsort = qsort_stable\<rparr>"

text \<open>
  The tick count carried by the instruction at the position of the file: the duration of
  a note, the length of a wait, 0 for any other command.
\<close>

definition tick_arg :: "env \<Rightarrow> state \<Rightarrow> u32" where
  "tick_arg e s =
     (let (cmd, p) = fgetc (rseq e) (rpos s)
      in if cmd < 0x80
         then (case ReadVarLen (rseq e) (snd (fgetc (rseq e) p)) of
                 None \<Rightarrow> 0 | Some r \<Rightarrow> fst r)
         else if cmd = 0x80
         then (case ReadVarLen (rseq e) p of None \<Rightarrow> 0 | Some r \<Rightarrow> fst r)
         else 0)"

text \<open>
  \<open>keeps_time s s'\<close>: from \<open>s\<close> to \<open>s'\<close> no track changes its tick position and no track
  gains a sounding note.
\<close>

definition keeps_time :: "state \<Rightarrow> state \<Rightarrow> bool" where
  "keeps_time s s' \<longleftrightarrow>
     length (gTrack s') = length (gTrack s) \<and>
     (\<forall>j < length (gTrack s).
        gGPos (gTrack s' ! j) = gGPos (gTrack s ! j) \<and>
        set (gNote (gTrack s' ! j)) \<subseteq> set (gNote (gTrack s ! j)))"

text \<open>
  The track named by the split whose command byte is at the position of the file: the
  byte after it. And \<open>only_trk i s s'\<close>: from \<open>s\<close> to \<open>s'\<close> no track other than \<open>i\<close> changes.
\<close>

definition split_target :: "env \<Rightarrow> state \<Rightarrow> nat" where
  "split_target e s = unat (fst (fgetc (rseq e) (snd (fgetc (rseq e) (rpos s)))))"

definition only_trk :: "nat \<Rightarrow> state \<Rightarrow> state \<Rightarrow> bool" where
  "only_trk i s s' \<longleftrightarrow>
     length (gTrack s') = length (gTrack s) \<and>
     (\<forall>j < length (gTrack s). j \<noteq> i \<longrightarrow> gTrack s' ! j = gTrack s ! j)"

text \<open>\<open>notes_ahead s\<close>: on every track, every sounding note ends at the track's tick position or later.\<close>

definition notes_ahead :: "state \<Rightarrow> bool" where
  "notes_ahead s \<longleftrightarrow> (\<forall>t \<in> set (gTrack s). \<forall>n \<in> set (gNote t). gGPos t \<le> pos n)"

section \<open>Properties\<close>

declare ReadBE_loop.simps [simp del] PushDelta_count.simps [simp del]
  PushDelta_write.simps [simp del] for_tracks.simps [simp del]

subsection \<open>The variable-length codec\<close>

lemma PushDelta_data:
  "gData (PushDelta t trk) = PushDelta_write t (PushDelta_count t 0) (gData trk)"
  by (simp add: PushDelta_def)

text \<open>
  Claim C7. For each tick value \<open>t\<close> of 0, 1, 127, 128, 16383, 16384 and 2097151: the
  bytes that \<^verbatim>\<open>PushDelta\<close> writes for \<open>t\<close> into an empty track buffer, read back by
  \<^verbatim>\<open>ReadVarLen\<close> from their first byte, give exactly \<open>t\<close>, and the reader stops right
  after them whatever follows (one byte up to 127, two up to 16383, three up to 2097151).
\<close>

theorem varlen_roundtrip:
  "ReadVarLen (gData (PushDelta 0 (trk\<lparr>gData := []\<rparr>)) @ rest) 0 = Some (0, 1) \<and>
   ReadVarLen (gData (PushDelta 1 (trk\<lparr>gData := []\<rparr>)) @ rest) 0 = Some (1, 1) \<and>
   ReadVarLen (gData (PushDelta 127 (trk\<lparr>gData := []\<rparr>)) @ rest) 0 = Some (127, 1) \<and>
   ReadVarLen (gData (PushDelta 128 (trk\<lparr>gData := []\<rparr>)) @ rest) 0 = Some (128, 2) \<and>
   ReadVarLen (gData (PushDelta 16383 (trk\<lparr>gData := []\<rparr>)) @ rest) 0 = Some (16383, 2) \<and>
   ReadVarLen (gData (PushDelta 16384 (trk\<lparr>gData := []\<rparr>)) @ rest) 0 = Some (16384, 3) \<and>
   ReadVarLen (gData (PushDelta 2097151 (trk\<lparr>gData := []\<rparr>)) @ rest) 0 = Some (2097151, 3)"
  by (simp add: PushDelta_data PushDelta_count.simps PushDelta_write.simps ReadVarLen_def
      ReadVarLen_loop.simps fgetc_def)

subsection \<open>Reading at a position inside the file\<close>

lemma fgetc_in: "p < length f \<Longrightarrow> fgetc f p = (ucast (f ! p), Suc p)"
  by (simp add: fgetc_def)

lemma rd_in:
  "rpos s < length (rseq e) \<Longrightarrow> rd e s = (ucast (rseq e ! rpos s), s\<lparr>rpos := Suc (rpos s)\<rparr>)"
  by (simp add: rd_def fgetc_in)

lemma ReadBE_8: "ReadBE f 8 p = fgetc f p"
  by (simp add: ReadBE_def ReadBE_loop.simps split_def)

lemma ReadBE_16:
  "ReadBE f 16 p = (let (c1, p1) = fgetc f p; (c2, p2) = fgetc f p1 in (push_bit 8 c1 OR c2, p2))"
  by (simp add: ReadBE_def ReadBE_loop.simps split_def Let_def)

lemma ReadBE_24:
  "ReadBE f 24 p =
     (let (c1, p1) = fgetc f p; (c2, p2) = fgetc f p1; (c3, p3) = fgetc f p2
      in (push_bit 16 c1 OR push_bit 8 c2 OR c3, p3))"
  by (simp add: ReadBE_def ReadBE_loop.simps split_def Let_def or.assoc)

lemma rdBE_8: "rdBE e 8 s = rd e s"
  by (simp add: rdBE_def rd_def ReadBE_8)

lemma gTrack_rdBE [simp]: "gTrack (snd (rdBE e b s)) = gTrack s"
  by (simp add: rdBE_def split_def Let_def)

lemma gTrack_rd [simp]: "gTrack (snd (rd e s)) = gTrack s"
  by (simp add: rd_def split_def Let_def)

lemma rpos_on_trk [simp]: "rpos (on_trk i f s) = rpos s"
  by (simp add: on_trk_def)

lemma length_on_trk [simp]: "length (gTrack (on_trk i f s)) = length (gTrack s)"
  by (simp add: on_trk_def)

lemma gTrack_DebugMsg [simp]: "gTrack (DebugMsg str args s) = gTrack s"
  by (simp add: DebugMsg_def)

lemma rpos_DebugMsg [simp]: "rpos (DebugMsg str args s) = rpos s"
  by (simp add: DebugMsg_def)

lemma rpos_put_label [simp]: "rpos (put_label e i s) = rpos s"
  by (simp add: put_label_def split: option.split)

lemma length_put_label [simp]: "length (gTrack (put_label e i s)) = length (gTrack s)"
  by (simp add: put_label_def split: option.split)

lemma unat_ucast_u8 [simp]: "unat (ucast (b :: u8) :: u32) = unat b"
proof -
  have "unat b < 2 ^ 8" using unsigned_less [of b, where 'a = nat] by simp
  then have "unat b < 2 ^ 32" by simp
  then show ?thesis by (simp add: unsigned_ucast_eq take_bit_nat_eq_self)
qed

lemma add_2_Suc: "n + 2 = Suc (Suc n)" by simp
lemma add_3_Suc: "n + 3 = Suc (Suc (Suc n))" by simp
lemma add_4_Suc: "n + 4 = Suc (Suc (Suc (Suc n)))" by simp

lemma code_at_nth:
  assumes "code_at e n = bs" and "length bs = n" and "k < n"
  shows "unat (mdOff e) + k < length (rseq e) \<and> rseq e ! (unat (mdOff e) + k) = bs ! k"
proof -
  have "length (code_at e n) = n" using assms by simp
  then have le: "n \<le> length (rseq e) - unat (mdOff e)"
    by (simp add: code_at_def)
  with \<open>k < n\<close> have lt: "unat (mdOff e) + k < length (rseq e)" by simp
  have "bs ! k = take n (drop (unat (mdOff e)) (rseq e)) ! k"
    using assms(1) by (simp add: code_at_def)
  also have "\<dots> = rseq e ! (unat (mdOff e) + k)"
    using \<open>k < n\<close> lt by simp
  finally show ?thesis using lt by simp
qed

subsection \<open>The first turn of track 0\<close>

lemma length_init [simp]: "length (gTrack init_state) = 16"
  by (simp add: init_state_def reset_tracks_def)

lemma gIndx_init0: "gIndx (gTrack init_state ! 0) = 0"
  by (simp add: init_state_def reset_tracks_def upt_rec Reset_def zero_track_def)

lemma track0_started:
  "gTrack (on_trk 0 (Start adr) init_state) ! 0 =
     \<lparr>gIndx = 0, gStat = 1, gTrns = 0, gRPNR = 0, gWait = 0, gDPos = adr, gGPos = 0,
      gRPos = 0, gNote = [], gData = []\<rparr>"
  by (simp add: on_trk_def init_state_def reset_tracks_def upt_rec Reset_def zero_track_def Start_def)

lemma entry_state_facts:
  "length (gTrack (entry_state e)) = 16"
  "rpos (entry_state e) = unat (mdOff e)"
  "gTrack (entry_state e) = gTrack (on_trk 0 (Start (mdOff e)) init_state)"
  by (simp_all add: entry_state_def on_trk_def)

lemma first_step_fault:
  assumes "step e 0 (entry_state e) = Inl x"
  shows "rseqDo e init_state = Some (Inl x)"
proof -
  define s0 where "s0 = DebugMsg ''  Trk %02u started from 0x%X...\<newline>'' [U 0, U (mdOff e)]
       (on_trk 0 (Start (mdOff e)) (DebugMsg ''  Begin decoding...\<newline>'' [] init_state))"
  have tr: "gTrack s0 = gTrack (on_trk 0 (Start (mdOff e)) init_state)"
    by (simp add: s0_def on_trk_def)
  have t0: "gStat (gTrack s0 ! 0) = 1" "gDPos (gTrack s0 ! 0) = mdOff e"
    by (simp_all add: tr track0_started)
  have es: "s0\<lparr>rpos := unat (mdOff e)\<rparr> = entry_state e"
    by (simp add: s0_def entry_state_def)
  have "track_loop e 0 (entry_state e) = Some (Inl x)"
    by (subst track_loop.simps) (simp add: assms)
  then have "track_body e 0 (s0, False) = Some (Inl x)"
    by (simp add: track_body_def t0 es)
  then have "for_tracks e 0 (s0, False) = Some (Inl x)"
    by (subst for_tracks.simps) simp
  then have "main_loop e s0 = Some (Inl x)"
    by (subst main_loop.simps) simp
  then show ?thesis
    by (simp add: rseqDo_def decode_all_def s0_def Let_def gIndx_init0)
qed

subsection \<open>Split and tempo: the two faults\<close>

lemma step_split_fault:
  assumes "rpos s + 1 < length (rseq e)"
    and "rseq e ! rpos s = 0x88"
    and "16 \<le> unat (rseq e ! (rpos s + 1))"
    and "length (gTrack s) = 16"
  shows "step e i s = Inl IndexOutOfRange"
  using assms
  by (simp add: step_def rd_in exec_cmd_def do_split_def rdBE_8 split_def Let_def)

text \<open>
  Claim C9. The split command uses the byte after it as the index into the sixteen
  tracks without a check. Whenever the bytecode of the entry track starts with a split
  (0x88) whose target byte \<open>k\<close> is 16 or more, \<^verbatim>\<open>rseqDo\<close> reaches the access outside the
  array: the run ends in the fault \<open>IndexOutOfRange\<close>.
\<close>

theorem split_index_unchecked:
  assumes "code_at e 2 = [0x88, k]" and "16 \<le> k"
  shows "rseqDo e init_state = Some (Inl IndexOutOfRange)"
proof -
  from code_at_nth [OF assms(1), of 0] code_at_nth [OF assms(1), of 1]
  have b: "unat (mdOff e) + 1 < length (rseq e)" "rseq e ! unat (mdOff e) = 0x88"
    "rseq e ! (unat (mdOff e) + 1) = k"
    by simp_all
  from assms(2) have "16 \<le> unat k" by (simp add: word_le_nat_alt)
  with b have "step e 0 (entry_state e) = Inl IndexOutOfRange"
    by (intro step_split_fault) (simp_all add: entry_state_facts)
  then show ?thesis by (rule first_step_fault)
qed

theorem split_index_unchecked_witness:
  "rseqDo (env_of [0x88, 16, 0, 0, 0] False False) init_state = Some (Inl IndexOutOfRange)"
  by (rule split_index_unchecked [where k = 16]) (simp_all add: code_at_def env_of_def)

lemma step_tempo_fault:
  assumes "rpos s + 2 < length (rseq e)"
    and "rseq e ! rpos s = 0xE1"
    and "rseq e ! (rpos s + 1) = 0"
    and "rseq e ! (rpos s + 2) = 0"
  shows "step e i s = Inl DivisionByZero"
  using assms
  by (simp add: step_def rd_in exec_cmd_def rdBE_def ReadBE_16 fgetc_in mTmp_def Let_def add_2_Suc)

text \<open>
  Claim C10. The tempo command divides 60000000 by its two-byte argument without a check
  for zero. Whenever the bytecode of the entry track starts with a tempo command (0xE1)
  whose argument is 0, \<^verbatim>\<open>rseqDo\<close> reaches the division by zero: the run ends in the
  fault \<open>DivisionByZero\<close>. No condition on the input excludes it.
\<close>

theorem tempo_zero_divides:
  assumes "code_at e 3 = [0xE1, 0, 0]"
  shows "rseqDo e init_state = Some (Inl DivisionByZero)"
proof -
  from code_at_nth [OF assms, of 0] code_at_nth [OF assms, of 1] code_at_nth [OF assms, of 2]
  have b: "unat (mdOff e) + 2 < length (rseq e)" "rseq e ! unat (mdOff e) = 0xE1"
    "rseq e ! (unat (mdOff e) + 1) = 0" "rseq e ! (unat (mdOff e) + 2) = 0"
    by simp_all
  then have "step e 0 (entry_state e) = Inl DivisionByZero"
    by (intro step_tempo_fault) (simp_all add: entry_state_facts)
  then show ?thesis by (rule first_step_fault)
qed

theorem tempo_zero_divides_witness:
  "rseqDo (env_of [0xE1, 0, 0, 0xFF] False False) init_state = Some (Inl DivisionByZero)"
  by (rule tempo_zero_divides) (simp add: code_at_def env_of_def)

subsection \<open>Evaluating a run on a concrete input\<close>

lemmas run_eval =
  rseqDo_def decode_all_def DebugMsg_def main_loop.simps for_tracks.simps track_body_def
  track_loop.simps step_def put_label_def curpos_of_def exec_cmd_def env_of_def on_trk_def rd_def
  fgetc_def ReadVarLen_def ReadVarLen_loop.simps init_state_def reset_tracks_def Reset_def
  zero_track_def upt_rec Start_def mNoteOn_def Event_def ProcDelta_def PushDelta_def
  PushDelta_count.simps PushDelta_write.simps mEnd_def write_midi_def write_track_def
  midiHeader_def trkHead_def mem32_def mem16_def Swap32_def Swap16_def trkMax_of_def
  entry_state_def

subsection \<open>Bytes written by the emitters\<close>

lemma PushDelta_write_append: "PushDelta_write t i d = d @ PushDelta_write t i []"
proof (induction "nat (i + 1)" arbitrary: i d)
  case 0
  then have "\<not> i \<ge> 0" by simp
  then show ?case by (simp add: PushDelta_write.simps)
next
  case (Suc n)
  then have i: "i \<ge> 0" by simp
  define b :: u8 where
    "b = ucast (if i \<noteq> 0 then (drop_bit (nat (7 * i)) t AND 127) OR 0x80
                else drop_bit (nat (7 * i)) t AND 127)"
  have n: "n = nat (i - 1 + 1)" using Suc.hyps(2) by simp
  have unfold: "PushDelta_write t i d' = PushDelta_write t (i - 1) (d' @ [b])" for d'
    using i by (subst PushDelta_write.simps) (simp add: Let_def b_def)
  have "PushDelta_write t i d = (d @ [b]) @ PushDelta_write t (i - 1) []"
    unfolding unfold using n by (rule Suc.hyps(1))
  moreover have "PushDelta_write t i [] = [b] @ PushDelta_write t (i - 1) []"
    unfolding unfold using Suc.hyps(1) [OF n, of "[b]"] by simp
  ultimately show ?case by simp
qed

lemma PushDelta_eq: "PushDelta t trk = trk\<lparr>gData := gData trk @ delta_bytes t\<rparr>"
  using PushDelta_write_append [of t "PushDelta_count t 0" "gData trk"]
  by (simp add: PushDelta_def delta_bytes_def)

lemma delta_bytes_0: "delta_bytes 0 = [0]"
  by (simp add: delta_bytes_def PushDelta_count.simps PushDelta_write.simps)

lemma Event_eq:
  "Event ev argv trk =
     trk\<lparr>gWait := 0,
         gData := gData trk @ delta_bytes (gWait trk) @ ucast (ev OR ucast (gIndx trk)) # argv\<rparr>"
  by (simp add: Event_def ProcDelta_def PushDelta_eq)

lemma status_FF: "ucast ((0xFF :: u32) OR ucast (x :: u8)) = (0xFF :: u8)"
proof -
  have "(ucast ((mask 8 :: u32) OR ucast x) :: u8) = mask 8"
    by (auto simp add: bit_eq_iff bit_simps)
  then show ?thesis by (simp add: mask_eq_exp_minus_1)
qed

subsection \<open>Single turns of the loop\<close>

lemma curpos_of_off: "rpos s = unat (mdOff e) + k \<Longrightarrow> curpos_of e s = word_of_nat k"
  by (simp add: curpos_of_def)

lemma put_label_None: "gLabels e (curpos_of e s) = None \<Longrightarrow> put_label e i s = s"
  by (simp add: put_label_def)

lemma take_bit_7_u8: "(b :: u8) < 0x80 \<Longrightarrow> take_bit 7 b = b"
  using less_mask_eq [of b 7] by (simp add: take_bit_eq_mask)

lemma ucast_and_127: "(b :: u8) < 0x80 \<Longrightarrow> (ucast b :: u32) AND 127 = ucast b"
proof -
  assume "b < 0x80"
  then have b: "take_bit 7 b = b" by (rule take_bit_7_u8)
  have "(ucast (take_bit 7 b) :: u32) AND mask 7 = ucast (take_bit 7 b)"
    by (auto simp add: bit_eq_iff bit_simps)
  then show ?thesis by (simp add: b mask_eq_exp_minus_1)
qed

lemma ucast_and_128: "(b :: u8) < 0x80 \<Longrightarrow> (ucast b :: u32) AND 128 = 0"
proof -
  assume "b < 0x80"
  then have "(ucast b :: u32) AND 128 = (ucast b AND 127) AND 128" by (simp add: ucast_and_127)
  also have "\<dots> = ucast b AND (127 AND 128)" by (simp only: and.assoc)
  finally show ?thesis by simp
qed

lemma ReadVarLen_short:
  "p < length f \<Longrightarrow> f ! p < 0x80 \<Longrightarrow> ReadVarLen f p = Some (ucast (f ! p), Suc p)"
  unfolding ReadVarLen_def
  by (subst ReadVarLen_loop.simps) (simp add: fgetc_in ucast_and_127 ucast_and_128)

lemma step_note_short:
  assumes "rpos s + 2 < length (rseq e)"
    and "rseq e ! rpos s < 0x80"
    and "rseq e ! (rpos s + 2) < 0x80"
    and "gLabels e (curpos_of e s) = None"
  shows "step e i s =
           Inr (on_trk i (mNoteOn (ucast (rseq e ! rpos s)) (ucast (rseq e ! (rpos s + 1)))
                            (ucast (rseq e ! (rpos s + 2))))
                  (s\<lparr>rpos := rpos s + 3\<rparr>), True)"
  using assms
  by (simp add: step_def put_label_None rd_in ReadVarLen_short add_2_Suc add_3_Suc word_less_nat_alt)

lemma step_end:
  assumes "rpos s < length (rseq e)"
    and "rseq e ! rpos s = 0xFF"
    and "gLabels e (curpos_of e s) = None"
  shows "step e i s =
           Inr (on_trk i mEnd
                  (DebugMsg ''  Trk %02u End at 0x%X.\<newline>'' [U (word_of_nat i), U (curpos_of e s)]
                     (s\<lparr>rpos := rpos s + 1\<rparr>)), False)"
  using assms
  by (simp add: step_def put_label_None rd_in exec_cmd_def)

subsection \<open>The passes over the tracks\<close>

lemma track_body_inactive:
  "gStat (gTrack s ! i) = 0 \<Longrightarrow> track_body e i (s, c) = Some (Inr (s, c))"
  by (simp add: track_body_def)

lemma for_tracks_inactive:
  "(\<And>i. k \<le> i \<Longrightarrow> i < 16 \<Longrightarrow> gStat (gTrack s ! i) = 0) \<Longrightarrow>
   for_tracks e k (s, c) = Some (Inr (s, c))"
proof (induction "16 - k" arbitrary: k)
  case 0
  then show ?case by (subst for_tracks.simps) simp
next
  case (Suc n)
  then have k: "k < 16" by simp
  have "track_body e k (s, c) = Some (Inr (s, c))"
    using Suc.prems [of k] k by (simp add: track_body_inactive)
  moreover have "for_tracks e (k + 1) (s, c) = Some (Inr (s, c))"
    using Suc by (intro Suc.hyps) auto
  ultimately show ?case using k by (subst for_tracks.simps) simp
qed

text \<open>
  A run in which only track 0 is ever active: its loop ends in \<open>s'\<close> with every track
  inactive, the rest of the first pass and the second pass change nothing.
\<close>

lemma single_track_run:
  assumes tl: "track_loop e 0 (entry_state e) = Some (Inr s')"
    and off: "\<And>i. i < 16 \<Longrightarrow> gStat (gTrack s' ! i) = 0"
  shows "rseqDo e init_state = Some (Inr (write_midi (gTrack s')))"
proof -
  define s0 where "s0 = DebugMsg ''  Trk %02u started from 0x%X...\<newline>'' [U 0, U (mdOff e)]
       (on_trk 0 (Start (mdOff e)) (DebugMsg ''  Begin decoding...\<newline>'' [] init_state))"
  define s1 where "s1 = DebugMsg ''  Trk %02u OK\<newline>'' [U 0] s'"
  have tr: "gTrack s0 = gTrack (on_trk 0 (Start (mdOff e)) init_state)"
    by (simp add: s0_def on_trk_def)
  have t0: "gStat (gTrack s0 ! 0) = 1" "gDPos (gTrack s0 ! 0) = mdOff e"
    by (simp_all add: tr track0_started)
  have es: "s0\<lparr>rpos := unat (mdOff e)\<rparr> = entry_state e"
    by (simp add: s0_def entry_state_def)
  have off1: "\<And>i. i < 16 \<Longrightarrow> gStat (gTrack s1 ! i) = 0"
    using off by (simp add: s1_def)
  have "track_body e 0 (s0, False) = Some (Inr (s1, True))"
    by (simp add: track_body_def t0 es tl s1_def)
  moreover have "for_tracks e (0 + 1) (s1, True) = Some (Inr (s1, True))"
    using off1 by (intro for_tracks_inactive) simp
  ultimately have p1: "for_tracks e 0 (s0, False) = Some (Inr (s1, True))"
    by (subst for_tracks.simps) simp
  have p2: "for_tracks e 0 (s1, False) = Some (Inr (s1, False))"
    using off1 by (intro for_tracks_inactive) simp
  have "main_loop e s1 = Some (Inr s1)"
    by (subst main_loop.simps) (simp add: p2)
  then have "main_loop e s0 = Some (Inr s1)"
    by (subst main_loop.simps) (simp add: p1)
  then show ?thesis
    by (simp add: rseqDo_def decode_all_def s0_def [symmetric] Let_def gIndx_init0 s1_def)
qed

subsection \<open>The minimal input: one note, then the end of the track\<close>

lemma note_end_loop:
  assumes code: "code_at e 4 = [60, 100, 96, 0xFF]"
    and l0: "gLabels e 0 = None" and l3: "gLabels e 3 = None"
  shows "track_loop e 0 (entry_state e) =
           Some (Inr (on_trk 0 mEnd
             (DebugMsg ''  Trk %02u End at 0x%X.\<newline>'' [U 0, U 3]
               ((on_trk 0 (mNoteOn 60 100 96) (entry_state e))\<lparr>rpos := unat (mdOff e) + 4\<rparr>))))"
proof -
  from code_at_nth [OF code, of 0] code_at_nth [OF code, of 1] code_at_nth [OF code, of 2]
    code_at_nth [OF code, of 3]
  have b: "unat (mdOff e) + 3 < length (rseq e)" "rseq e ! unat (mdOff e) = 60"
    "rseq e ! (unat (mdOff e) + 1) = 100" "rseq e ! (unat (mdOff e) + 2) = 96"
    "rseq e ! (unat (mdOff e) + 3) = 0xFF"
    by simp_all
  define s1 where
    "s1 = on_trk 0 (mNoteOn 60 100 96) ((entry_state e)\<lparr>rpos := unat (mdOff e) + 3\<rparr>)"
  have c0: "curpos_of e (entry_state e) = 0"
    using curpos_of_off [of "entry_state e" e 0] by (simp add: entry_state_facts)
  have rp: "rpos s1 = unat (mdOff e) + 3" by (simp add: s1_def)
  have c3: "curpos_of e s1 = 3"
    using curpos_of_off [of s1 e 3] by (simp add: rp)
  have st1: "step e 0 (entry_state e) = Inr (s1, True)"
    using b l0 by (subst step_note_short) (simp_all add: entry_state_facts c0 s1_def)
  have st2: "step e 0 s1 =
      Inr (on_trk 0 mEnd (DebugMsg ''  Trk %02u End at 0x%X.\<newline>'' [U 0, U 3]
             (s1\<lparr>rpos := unat (mdOff e) + 4\<rparr>)), False)"
    using b l3 by (subst step_end) (simp_all add: c3 rp ac_simps)
  have "track_loop e 0 (entry_state e) = track_loop e 0 s1"
    by (subst track_loop.simps) (simp add: st1)
  also have "\<dots> = Some (Inr (on_trk 0 mEnd (DebugMsg ''  Trk %02u End at 0x%X.\<newline>'' [U 0, U 3]
             (s1\<lparr>rpos := unat (mdOff e) + 4\<rparr>))))"
    by (subst track_loop.simps) (simp add: st2)
  finally show ?thesis by (simp add: s1_def on_trk_def)
qed

lemma note_end_output:
  assumes code: "code_at e 4 = [60, 100, 96, 0xFF]"
    and l0: "gLabels e 0 = None" and l3: "gLabels e 3 = None"
  shows "rseqDo e init_state =
           Some (Inr ([0x4D, 0x54, 0x68, 0x64, 0, 0, 0, 6, 0, 1, 0, 1, 0, 96] @
                      [0x4D, 0x54, 0x72, 0x6B, 0, 0, 0, 12] @
                      [0, 0x90, 60, 100,  0, 0x90, 60, 0,  0, 0xFF, 0x2F, 0]))"
proof -
  define s' where "s' = on_trk 0 mEnd
             (DebugMsg ''  Trk %02u End at 0x%X.\<newline>'' [U 0, U 3]
               ((on_trk 0 (mNoteOn 60 100 96) (entry_state e))\<lparr>rpos := unat (mdOff e) + 4\<rparr>))"
  have tr: "gTrack s' =
      (\<lparr>gIndx = 0, gStat = 0, gTrns = 0, gRPNR = 0, gWait = 0, gDPos = mdOff e, gGPos = 0,
        gRPos = 0, gNote = [], gData = [0, 0x90, 60, 100,  0, 0x90, 60, 0,  0, 0xFF, 0x2F, 0]\<rparr>)
      # tl reset_tracks"
    by (simp add: s'_def on_trk_def entry_state_def init_state_def reset_tracks_def upt_rec
        Reset_def zero_track_def Start_def mNoteOn_def Event_def ProcDelta_def PushDelta_def
        PushDelta_count.simps PushDelta_write.simps mEnd_def DebugMsg_def)
  have "\<forall>t \<in> set (gTrack s'). gStat t = 0"
    by (simp add: tr reset_tracks_def upt_rec Reset_def zero_track_def)
  moreover have "length (gTrack s') = 16"
    by (simp add: tr reset_tracks_def)
  ultimately have off: "\<And>i. i < 16 \<Longrightarrow> gStat (gTrack s' ! i) = 0"
    by (metis nth_mem)
  have "rseqDo e init_state = Some (Inr (write_midi (gTrack s')))"
    using note_end_loop [OF assms] off unfolding s'_def by (rule single_track_run)
  also have "write_midi (gTrack s') = [0x4D, 0x54, 0x68, 0x64, 0, 0, 0, 6, 0, 1, 0, 1, 0, 96] @
                      [0x4D, 0x54, 0x72, 0x6B, 0, 0, 0, 12] @
                      [0, 0x90, 60, 100,  0, 0x90, 60, 0,  0, 0xFF, 0x2F, 0]"
    by (simp add: tr write_midi_def write_track_def midiHeader_def trkHead_def mem32_def mem16_def
        Swap32_def Swap16_def trkMax_of_def reset_tracks_def upt_rec Reset_def zero_track_def)
  finally show ?thesis .
qed

text \<open>
  Claim C1, amended. For every input whose entry track starts with the bytes
  \<open>60 100 96 255\<close> (a note with key 60, velocity 100 and duration 96, then the end of the
  track) and that has no label on the two commands, the MIDI file written is: the header
  \<^verbatim>\<open>MThd\<close> of length 6 with format 1, a track count of exactly one and division 96; one
  track \<^verbatim>\<open>MTrk\<close> of 12 bytes holding delta 0, note-on(60, 100); delta 0, note-off(60, 0)
  (the status 0x90 with velocity 0); delta 0, the end-of-track meta event. The note-off
  comes at delta 0, not 96: the end of the track flushes the sounding note at once.
\<close>

theorem minimal_note_then_end:
  assumes "code_at e 4 = [60, 100, 96, 0xFF]"
    and "gLabels e 0 = None" and "gLabels e 3 = None"
  shows "rseqDo e init_state =
           Some (Inr ([0x4D, 0x54, 0x68, 0x64, 0, 0, 0, 6, 0, 1, 0, 1, 0, 96] @
                      [0x4D, 0x54, 0x72, 0x6B, 0, 0, 0, 12] @
                      [0, 0x90, 60, 100,  0, 0x90, 60, 0,  0, 0xFF, 0x2F, 0]))"
  using assms by (rule note_end_output)

theorem minimal_note_then_end_witness:
  "rseqDo (env_of [60, 100, 96, 0xFF] False False) init_state =
     Some (Inr ([0x4D, 0x54, 0x68, 0x64, 0, 0, 0, 6, 0, 1, 0, 1, 0, 96] @
                [0x4D, 0x54, 0x72, 0x6B, 0, 0, 0, 12] @
                [0, 0x90, 60, 100,  0, 0x90, 60, 0,  0, 0xFF, 0x2F, 0]))"
  by (rule minimal_note_then_end) (simp_all add: code_at_def env_of_def)

text \<open>
  The claim as stated (note-off at delta 96) fails on that input: the track data written
  differs from the one claimed in the byte of the second delta.
\<close>

theorem minimal_note_off_delta_counterexample:
  "rseqDo (env_of [60, 100, 96, 0xFF] False False) init_state \<noteq>
     Some (Inr ([0x4D, 0x54, 0x68, 0x64, 0, 0, 0, 6, 0, 1, 0, 1, 0, 96] @
                [0x4D, 0x54, 0x72, 0x6B, 0, 0, 0, 12] @
                [0, 0x90, 60, 100,  96, 0x90, 60, 0,  0, 0xFF, 0x2F, 0]))"
proof -
  have "rseqDo (env_of [60, 100, 96, 0xFF] False False) init_state =
     Some (Inr ([0x4D, 0x54, 0x68, 0x64, 0, 0, 0, 6, 0, 1, 0, 1, 0, 96] @
                [0x4D, 0x54, 0x72, 0x6B, 0, 0, 0, 12] @
                [0, 0x90, 60, 100,  0, 0x90, 60, 0,  0, 0xFF, 0x2F, 0]))"
    by (rule note_end_output) (simp_all add: code_at_def env_of_def)
  then show ?thesis by simp
qed

subsection \<open>Bend range and the RPN selection\<close>

lemma mBndRng_eq:
  "mBndRng rng t =
     (let st = ucast (0xB0 OR (ucast (gIndx t) :: u32))
      in t\<lparr>gRPNR := (if gRPNR t = 0 then 1 else gRPNR t), gWait := 0,
           gData := gData t @ delta_bytes (gWait t) @
                    (if gRPNR t = 0 then [st, 0x65, 0, 0, st, 0x64, 0, 0] else []) @
                    [st, 0x06, ucast rng]\<rparr>)"
  by (simp add: mBndRng_def Event_eq delta_bytes_0 Let_def)

lemma step_bend_range:
  assumes "rpos s + 1 < length (rseq e)" and "rseq e ! rpos s = 0xC5"
  shows "step e i s =
           Inr (on_trk i (mBndRng (ucast (rseq e ! (rpos s + 1))))
                  ((put_label e i s)\<lparr>rpos := rpos s + 2\<rparr>), True)"
  using assms
  by (simp add: step_def rd_in exec_cmd_def Let_def add_2_Suc)

lemma two_bend_ranges_output:
  "rseqDo (env_of [0xC5, 2, 0xC5, 2, 0xFF] False False) init_state =
     Some (Inr ([0x4D, 0x54, 0x68, 0x64, 0, 0, 0, 6, 0, 1, 0, 1, 0, 96] @
                [0x4D, 0x54, 0x72, 0x6B, 0, 0, 0, 20] @
                [0, 0xB0, 0x65, 0,  0, 0xB0, 0x64, 0,  0, 0xB0, 0x06, 2,
                 0, 0xB0, 0x06, 2,
                 0, 0xFF, 0x2F, 0]))"
  by (simp add: run_eval mBndRng_def)

text \<open>
  Claim C2, amended. The command 0xC5 applies \<^verbatim>\<open>mBndRng\<close> to the byte that follows it.
  \<^verbatim>\<open>mBndRng\<close> emits the RPN-select pair (controller 0x65 with value 0, then controller
  0x64 with value 0) only when \<^verbatim>\<open>gRPNR\<close> is 0, and sets it to 1; it then always emits
  the data-entry event (controller 6 with the range) and leaves \<^verbatim>\<open>gRPNR\<close> set. So a
  bend range that follows another one, with no \<^verbatim>\<open>mRPN\<close> or \<^verbatim>\<open>mNRPN\<close> in between,
  emits the data entry alone. The first event carries the pending delta, the others
  delta 0.
\<close>

theorem bend_range_selects_when_unarmed:
  assumes "rpos s + 1 < length (rseq e)" and "rseq e ! rpos s = 0xC5"
  shows "step e i s =
           Inr (on_trk i (mBndRng (ucast (rseq e ! (rpos s + 1))))
                  ((put_label e i s)\<lparr>rpos := rpos s + 2\<rparr>), True) \<and>
         mBndRng rng t =
           (let st = ucast (0xB0 OR (ucast (gIndx t) :: u32))
            in t\<lparr>gRPNR := (if gRPNR t = 0 then 1 else gRPNR t), gWait := 0,
                 gData := gData t @ delta_bytes (gWait t) @
                          (if gRPNR t = 0 then [st, 0x65, 0, 0, st, 0x64, 0, 0] else []) @
                          [st, 0x06, ucast rng]\<rparr>)"
  using step_bend_range [OF assms] mBndRng_eq by simp

theorem bend_range_selects_when_unarmed_witness:
  "step (env_of [0xC5, 2, 0xFF] False False) 0 (entry_state (env_of [0xC5, 2, 0xFF] False False)) =
     Inr (on_trk 0 (mBndRng 2) ((entry_state (env_of [0xC5, 2, 0xFF] False False))\<lparr>rpos := 2\<rparr>), True) \<and>
   gData (mBndRng 2 zero_track) = [0, 0xB0, 0x65, 0,  0, 0xB0, 0x64, 0,  0, 0xB0, 0x06, 2] \<and>
   gRPNR (mBndRng 2 zero_track) = 1 \<and>
   gData (mBndRng 2 (zero_track\<lparr>gRPNR := 1\<rparr>)) = [0, 0xB0, 0x06, 2]"
proof -
  let ?e = "env_of [0xC5, 2, 0xFF] False False"
  let ?s = "entry_state ?e"
  have h1: "rpos ?s + 1 < length (rseq ?e)" and h2: "rseq ?e ! rpos ?s = 0xC5"
    by (simp_all add: entry_state_facts env_of_def)
  have r: "rpos ?s + 2 = 2" "ucast (rseq ?e ! (rpos ?s + 1)) = (2 :: u32)" "put_label ?e 0 ?s = ?s"
    by (simp_all add: entry_state_facts env_of_def put_label_def)
  from bend_range_selects_when_unarmed [OF h1 h2, of 0 2 zero_track]
    bend_range_selects_when_unarmed [OF h1 h2, of 0 2 "zero_track\<lparr>gRPNR := 1\<rparr>"]
  show ?thesis
    unfolding r by (simp add: zero_track_def delta_bytes_0 Let_def)
qed

text \<open>
  The claim as stated (a full triple on every bend range) fails on two bend ranges in a
  row: the output is not the one with two triples; \<open>two_bend_ranges_output\<close> gives it.
\<close>

theorem bend_range_triple_counterexample:
  "rseqDo (env_of [0xC5, 2, 0xC5, 2, 0xFF] False False) init_state \<noteq>
     Some (Inr ([0x4D, 0x54, 0x68, 0x64, 0, 0, 0, 6, 0, 1, 0, 1, 0, 96] @
                [0x4D, 0x54, 0x72, 0x6B, 0, 0, 0, 28] @
                [0, 0xB0, 0x65, 0,  0, 0xB0, 0x64, 0,  0, 0xB0, 0x06, 2,
                 0, 0xB0, 0x65, 0,  0, 0xB0, 0x64, 0,  0, 0xB0, 0x06, 2,
                 0, 0xFF, 0x2F, 0]))"
  by (simp add: two_bend_ranges_output)

subsection \<open>A command byte with no case\<close>

text \<open>
  Claim C3, amended. When the command byte read has no \<^verbatim>\<open>case\<close> (and is not a note),
  the turn of the loop only appends the warning to the log: exactly that one byte is
  consumed, no track changes (beyond the label event of the offset, if there is a
  label), and the flag \<^verbatim>\<open>loop\<close> stays true, so the track stays active and the loop goes
  on with the next byte as a command.
\<close>

theorem unknown_opcode_skipped:
  assumes "rpos s < length (rseq e)" and "\<not> known_cmd (rseq e ! rpos s)"
  shows "step e i s =
           Inr (DebugMsg ''  WARNING: Unknown command %02X\<newline>'' [U (ucast (rseq e ! rpos s))]
                  ((put_label e i s)\<lparr>rpos := rpos s + 1\<rparr>), True)"
  using assms
  by (simp add: step_def rd_in exec_cmd_def known_cmd_def word_unat_eq_iff word_less_nat_alt
      word_le_nat_alt)

theorem unknown_opcode_skipped_witness:
  "\<not> known_cmd 0x82 \<and>
   step (env_of [0x82, 0xFF] False False) 0 (entry_state (env_of [0x82, 0xFF] False False)) =
     Inr (DebugMsg ''  WARNING: Unknown command %02X\<newline>'' [U 0x82]
            ((entry_state (env_of [0x82, 0xFF] False False))\<lparr>rpos := 1\<rparr>), True)"
  using unknown_opcode_skipped [of "entry_state (env_of [0x82, 0xFF] False False)"
      "env_of [0x82, 0xFF] False False" 0]
  by (simp add: entry_state_facts env_of_def put_label_def known_cmd_def)

text \<open>
  The claim as stated (the track ends, no further byte is consumed) fails on the unknown
  byte 0x82 followed by a note and the end of the track: the turn returns with \<^verbatim>\<open>loop\<close>
  true and the track active, and the run goes on to emit the note that follows.
\<close>

theorem unknown_opcode_counterexample:
  "step (env_of [0x82, 60, 100, 96, 0xFF] False False) 0
       (entry_state (env_of [0x82, 60, 100, 96, 0xFF] False False)) =
     Inr (DebugMsg ''  WARNING: Unknown command %02X\<newline>'' [U 0x82]
            ((entry_state (env_of [0x82, 60, 100, 96, 0xFF] False False))\<lparr>rpos := 1\<rparr>), True) \<and>
   gStat (gTrack (entry_state (env_of [0x82, 60, 100, 96, 0xFF] False False)) ! 0) = 1 \<and>
   rseqDo (env_of [0x82, 60, 100, 96, 0xFF] False False) init_state =
     Some (Inr ([0x4D, 0x54, 0x68, 0x64, 0, 0, 0, 6, 0, 1, 0, 1, 0, 96] @
                [0x4D, 0x54, 0x72, 0x6B, 0, 0, 0, 12] @
                [0, 0x90, 60, 100,  0, 0x90, 60, 0,  0, 0xFF, 0x2F, 0]))"
  by (simp add: run_eval)

subsection \<open>The end of a track\<close>

lemma mEnd_flush_eq:
  "mEnd_flush (n # ns) trk =
     trk\<lparr>gWait := 0,
         gData := gData trk @ delta_bytes (gWait trk) @ note_off (gIndx trk) n @
                  concat (map (\<lambda>m. 0 # note_off (gIndx trk) m) ns)\<rparr>"
proof (induction ns arbitrary: n trk)
  case Nil
  show ?case by (simp add: PushDelta_eq note_off_def)
next
  case (Cons m ns)
  have "mEnd_flush (n # m # ns) trk =
      mEnd_flush (m # ns) (trk\<lparr>gWait := 0, gData := gData trk @ delta_bytes (gWait trk) @ note_off (gIndx trk) n\<rparr>)"
    by (simp add: PushDelta_eq note_off_def)
  then show ?case
    by (simp only: Cons.IH) (simp add: delta_bytes_0)
qed

lemma mEnd_eq:
  assumes "gNote t = n # ns"
  shows "mEnd t = t\<lparr>gStat := 0, gWait := 0, gNote := [],
                    gData := gData t @ delta_bytes (gWait t) @ note_off (gIndx t) n @
                             concat (map (\<lambda>m. 0 # note_off (gIndx t) m) ns) @ [0, 0xFF, 0x2F, 0]\<rparr>"
  by (simp add: mEnd_def assms mEnd_flush_eq Event_eq delta_bytes_0 status_FF Let_def
      del: mEnd_flush.simps)

lemma run_steps_numeral:
  "run_steps e i (numeral k) s =
     (case step e i s of Inl x \<Rightarrow> None | Inr r \<Rightarrow> run_steps e i (pred_numeral k) (fst r))"
  by (simp add: numeral_eq_Suc)

lemma mEnd_pending0:
  assumes "gWait t = 0"
  shows "mEnd t = t\<lparr>gStat := 0, gNote := [],
                    gData := gData t @ concat (map (\<lambda>m. 0 # note_off (gIndx t) m) (gNote t)) @
                             [0, 0xFF, 0x2F, 0]\<rparr>"
proof (cases "gNote t")
  case Nil
  then show ?thesis
    using assms by (simp add: mEnd_def Event_eq delta_bytes_0 status_FF Let_def)
next
  case (Cons n ns)
  then show ?thesis
    using assms by (simp add: mEnd_eq [OF Cons] delta_bytes_0)
qed

text \<open>What a turn of the loop of one track may change in the other tracks.\<close>

lemma only_trk_refl [simp]: "only_trk i s s"
  by (simp add: only_trk_def)

lemma only_trk_trans: "only_trk i a b \<Longrightarrow> only_trk i b c \<Longrightarrow> only_trk i a c"
  by (simp add: only_trk_def)

lemma only_trk_on_trk: "only_trk i s s1 \<Longrightarrow> only_trk i s (on_trk i f s1)"
  by (simp add: only_trk_def on_trk_def)

lemma only_trk_rpos [simp]: "only_trk i s (s1\<lparr>rpos := p\<rparr>) = only_trk i s s1"
  by (simp add: only_trk_def)

lemma only_trk_DebugMsg [simp]: "only_trk i s (DebugMsg str args s1) = only_trk i s s1"
  by (simp add: only_trk_def)

lemma only_trk_rd [simp]: "only_trk i s (snd (rd e s1)) = only_trk i s s1"
  by (simp add: only_trk_def)

lemma only_trk_rdBE [simp]: "only_trk i s (snd (rdBE e b s1)) = only_trk i s s1"
  by (simp add: only_trk_def)

lemma only_trk_put_label: "only_trk i s (put_label e i s)"
  by (simp add: put_label_def only_trk_on_trk split: option.split)

lemma exec_cmd_only_trk:
  assumes "exec_cmd e i cmd cp s = Inr (s', l)" and "cmd \<noteq> 0x88"
  shows "only_trk i s s'"
  using assms
  by (auto simp add: exec_cmd_def dbg_ctrl2_def dbg_ctrl1_def ctrl1_def do_jump_def do_call_def
      do_return_def split_def Let_def
      intro!: only_trk_on_trk split: if_splits option.splits sum.splits)

text \<open>A turn of the loop of track \<open>i\<close> whose command is not a split changes no other track.\<close>

lemma step_only_trk:
  assumes st: "step e i s = Inr (s', l)" and nosplit: "fst (fgetc (rseq e) (rpos s)) \<noteq> 0x88"
  shows "only_trk i s s'"
proof -
  define s0 where "s0 = put_label e i s"
  have k0: "only_trk i s s0" unfolding s0_def by (rule only_trk_put_label)
  obtain cmd p where fg: "fgetc (rseq e) (rpos s) = (cmd, p)" by (cases "fgetc (rseq e) (rpos s)")
  have rd0: "rd e s0 = (cmd, s0\<lparr>rpos := p\<rparr>)"
    by (simp add: rd_def s0_def fg)
  show ?thesis
  proof (cases "cmd < 0x80")
    case True
    obtain vel p2 where fg2: "fgetc (rseq e) p = (vel, p2)" by (cases "fgetc (rseq e) p")
    have rd1: "rd e (s0\<lparr>rpos := p\<rparr>) = (vel, s0\<lparr>rpos := p2\<rparr>)"
      by (simp add: rd_def fg2)
    from st True obtain len p3 where
      s': "s' = on_trk i (mNoteOn cmd vel len) (s0\<lparr>rpos := p3\<rparr>)"
      by (auto simp add: step_def s0_def [symmetric] rd0 rd1 Let_def split: option.splits)
    show ?thesis unfolding s' using k0 by (intro only_trk_on_trk) simp
  next
    case False
    then have ex: "step e i s = exec_cmd e i cmd (curpos_of e s) (s0\<lparr>rpos := p\<rparr>)"
      by (simp add: step_def s0_def [symmetric] rd0 Let_def)
    from nosplit fg have "cmd \<noteq> 0x88" by simp
    with st ex have "only_trk i (s0\<lparr>rpos := p\<rparr>) s'"
      by (intro exec_cmd_only_trk [of e i cmd "curpos_of e s" _ s' l]) simp_all
    moreover have "only_trk i s (s0\<lparr>rpos := p\<rparr>)" using k0 by simp
    ultimately show ?thesis by (rule only_trk_trans [rotated])
  qed
qed

text \<open>
  A turn of the loop of track \<open>i\<close> whose command is a split: the target is inside the
  array (the turn returned), the target track is started, no other track changes beyond
  the label event of track \<open>i\<close>.
\<close>

lemma step_split:
  assumes st: "step e i s = Inr (s', l)" and split: "fst (fgetc (rseq e) (rpos s)) = 0x88"
  shows "split_target e s < length (gTrack s) \<and>
         (\<exists>adr. gTrack s' = (gTrack (put_label e i s))
                    [split_target e s := Start adr (gTrack (put_label e i s) ! split_target e s)])"
proof -
  define s0 where "s0 = put_label e i s"
  obtain cmd p where fg: "fgetc (rseq e) (rpos s) = (cmd, p)" by (cases "fgetc (rseq e) (rpos s)")
  with split have cmd: "cmd = 0x88" by simp
  have rd0: "rd e s0 = (cmd, s0\<lparr>rpos := p\<rparr>)"
    by (simp add: rd_def s0_def fg)
  obtain trk p2 where fg2: "fgetc (rseq e) p = (trk, p2)" by (cases "fgetc (rseq e) p")
  have tgt: "split_target e s = unat trk"
    by (simp add: split_target_def fg fg2)
  have rd1: "rdBE e 8 (s0\<lparr>rpos := p\<rparr>) = (trk, s0\<lparr>rpos := p2\<rparr>)"
    by (simp add: rdBE_8 rd_def fg2)
  have "step e i s = do_split e (s0\<lparr>rpos := p\<rparr>)"
    by (simp add: step_def s0_def [symmetric] rd0 Let_def cmd exec_cmd_def)
  with st have ds: "do_split e (s0\<lparr>rpos := p\<rparr>) = Inr (s', l)" by simp
  then have lt: "unat trk < length (gTrack s0)"
    by (auto simp add: do_split_def rd1 split_def Let_def split: if_splits)
  from ds lt have "\<exists>adr. gTrack s' = (gTrack s0)[unat trk := Start adr (gTrack s0 ! unat trk)]"
    by (auto simp add: do_split_def rd1 split_def Let_def on_trk_def)
  with lt show ?thesis
    by (simp add: tgt s0_def)
qed

lemma Start_Start: "Start b (Start a t) = Start b t"
  by (simp add: Start_def)

text \<open>
  One turn of the loop of track \<open>k\<close> changes another track \<open>i\<close> only by a split that
  names \<open>i\<close>, which starts it.
\<close>

lemma step_frame:
  assumes ki: "k \<noteq> i" and iu: "i < length (gTrack u)" and st: "step e k u = Inr (u', l)"
  shows "length (gTrack u') = length (gTrack u) \<and>
         (gTrack u' ! i = gTrack u ! i \<or>
          fst (fgetc (rseq e) (rpos u)) = 0x88 \<and> split_target e u = i \<and>
          (\<exists>adr. gTrack u' ! i = Start adr (gTrack u ! i)))"
proof (cases "fst (fgetc (rseq e) (rpos u)) = 0x88")
  case False
  with st have "only_trk k u u'" by (rule step_only_trk)
  with ki iu show ?thesis by (simp add: only_trk_def)
next
  case True
  have pl: "only_trk k u (put_label e k u)" by (rule only_trk_put_label)
  then have same: "gTrack (put_label e k u) ! i = gTrack u ! i"
    and len: "length (gTrack (put_label e k u)) = length (gTrack u)"
    using ki iu by (simp_all add: only_trk_def)
  from step_split [OF st True] obtain adr where
    tr: "gTrack u' = (gTrack (put_label e k u))
           [split_target e u := Start adr (gTrack (put_label e k u) ! split_target e u)]"
    by blast
  show ?thesis
  proof (cases "split_target e u = i")
    case True
    with tr same len iu have "gTrack u' ! i = Start adr (gTrack u ! i)"
      by simp
    moreover have "length (gTrack u') = length (gTrack u)"
      by (simp add: tr len)
    ultimately show ?thesis
      using True \<open>fst (fgetc (rseq e) (rpos u)) = 0x88\<close> by auto
  next
    case False
    with tr same len show ?thesis by simp
  qed
qed

text \<open>The whole loop of track \<open>k\<close> leaves another track \<open>i\<close> as it was, or started again.\<close>

lemma track_loop_frame:
  assumes tl: "track_loop e k u = Some (Inr u')" and ki: "k \<noteq> i" and iu: "i < length (gTrack u)"
  shows "length (gTrack u') = length (gTrack u) \<and>
         (gTrack u' ! i = gTrack u ! i \<or> (\<exists>adr. gTrack u' ! i = Start adr (gTrack u ! i)))"
proof -
  have "\<forall>u'. r = Inr u' \<longrightarrow> k \<noteq> i \<longrightarrow> i < length (gTrack u) \<longrightarrow>
           length (gTrack u') = length (gTrack u) \<and>
           (gTrack u' ! i = gTrack u ! i \<or> (\<exists>adr. gTrack u' ! i = Start adr (gTrack u ! i)))"
    if "track_loop e k u = Some r" for r
  proof (rule track_loop.raw_induct [where P = "\<lambda>e k u r. \<forall>u'. r = Inr u' \<longrightarrow> k \<noteq> i \<longrightarrow>
           i < length (gTrack u) \<longrightarrow> length (gTrack u') = length (gTrack u) \<and>
           (gTrack u' ! i = gTrack u ! i \<or> (\<exists>adr. gTrack u' ! i = Start adr (gTrack u ! i)))",
        OF _ that])
    fix loop :: "env \<Rightarrow> nat \<Rightarrow> state \<Rightarrow> (fault + state) option" and e k u r
    assume ih: "\<And>e k u r. loop e k u = Some r \<Longrightarrow> \<forall>u'. r = Inr u' \<longrightarrow> k \<noteq> i \<longrightarrow>
           i < length (gTrack u) \<longrightarrow> length (gTrack u') = length (gTrack u) \<and>
           (gTrack u' ! i = gTrack u ! i \<or> (\<exists>adr. gTrack u' ! i = Start adr (gTrack u ! i)))"
      and body: "(case step e k u of Inl x \<Rightarrow> Some (Inl x)
                  | Inr r \<Rightarrow> if snd r then loop e k (fst r) else Some (Inr (fst r))) = Some r"
    show "\<forall>u'. r = Inr u' \<longrightarrow> k \<noteq> i \<longrightarrow> i < length (gTrack u) \<longrightarrow>
           length (gTrack u') = length (gTrack u) \<and>
           (gTrack u' ! i = gTrack u ! i \<or> (\<exists>adr. gTrack u' ! i = Start adr (gTrack u ! i)))"
    proof (intro allI impI)
      fix u' assume r: "r = Inr u'" and ki: "k \<noteq> i" and iu: "i < length (gTrack u)"
      from body r obtain u1 l where st: "step e k u = Inr (u1, l)"
        by (cases "step e k u") (auto split: if_splits)
      from step_frame [OF ki iu st]
      have len1: "length (gTrack u1) = length (gTrack u)"
        and f1: "gTrack u1 ! i = gTrack u ! i \<or> (\<exists>adr. gTrack u1 ! i = Start adr (gTrack u ! i))"
        by blast+
      show "length (gTrack u') = length (gTrack u) \<and>
            (gTrack u' ! i = gTrack u ! i \<or> (\<exists>adr. gTrack u' ! i = Start adr (gTrack u ! i)))"
      proof (cases l)
        case False
        with body r st have "u' = u1" by simp
        with len1 f1 show ?thesis by simp
      next
        case True
        with body st have "loop e k u1 = Some r" by simp
        from ih [OF this] r ki iu len1
        have len2: "length (gTrack u') = length (gTrack u1)"
          and f2: "gTrack u' ! i = gTrack u1 ! i \<or> (\<exists>adr. gTrack u' ! i = Start adr (gTrack u1 ! i))"
          by auto
        from f1 f2 have "gTrack u' ! i = gTrack u ! i \<or> (\<exists>adr. gTrack u' ! i = Start adr (gTrack u ! i))"
          by (auto simp add: Start_Start)
        with len1 len2 show ?thesis by simp
      qed
    qed
  qed
  from this [OF tl] ki iu show ?thesis by blast
qed

lemma track_body_frame:
  assumes ki: "k \<noteq> i" and iu: "i < length (gTrack u)"
    and tb: "track_body e k (u, c) = Some (Inr (u', c'))"
  shows "length (gTrack u') = length (gTrack u) \<and>
         (gTrack u' ! i = gTrack u ! i \<or> (\<exists>adr. gTrack u' ! i = Start adr (gTrack u ! i)))"
proof (cases "gStat (gTrack u ! k) = 0")
  case True
  with tb show ?thesis by (simp add: track_body_def)
next
  case False
  with tb obtain u1 where tl: "track_loop e k (u\<lparr>rpos := unat (gDPos (gTrack u ! k))\<rparr>) = Some (Inr u1)"
    and u': "u' = DebugMsg ''  Trk %02u OK\<newline>'' [U (word_of_nat k)] u1"
    by (auto simp add: track_body_def split: option.splits sum.splits)
  from track_loop_frame [OF tl ki] iu show ?thesis
    by (simp add: u')
qed

lemma mEnd_gIndx: "gIndx (mEnd t) = gIndx t"
proof (cases "gNote t")
  case Nil
  then show ?thesis by (simp add: mEnd_def Event_eq Let_def)
next
  case (Cons n ns)
  show ?thesis by (simp add: mEnd_eq [OF Cons])
qed

text \<open>
  Claim C4, amended. When \<^verbatim>\<open>mEnd\<close> runs on a track with sounding notes \<open>n # ns\<close>, it
  appends exactly one note-off per note, in the order in which the notes are stored in
  \<^verbatim>\<open>gNote\<close> (a key sounding twice is turned off twice), the first after the pending
  delta and each other one at delta 0, then exactly one end-of-track meta event at
  delta 0; it clears the sounding set and the pending delta and marks the track
  inactive. Afterwards the scheduler's visit of the ended track changes nothing. The
  scheduler's visit of any other track \<open>k\<close> (the whole loop of that track), from any
  state \<open>u\<close>, leaves track \<open>i\<close> exactly as it is or started again by \<^verbatim>\<open>Start\<close>; and a single
  turn of the loop of track \<open>k\<close>, from any state \<open>v\<close>, changes track \<open>i\<close> only if its command
  is a split (0x88) that names track \<open>i\<close>: then track \<open>i\<close> is started again, active and
  with an empty buffer.
\<close>

theorem end_flushes_in_stored_order:
  assumes "i < length (gTrack s)" and "gNote (gTrack s ! i) = n # ns"
  shows "let t = gTrack s ! i; s' = on_trk i mEnd s
         in gTrack s' ! i =
              t\<lparr>gStat := 0, gWait := 0, gNote := [],
                gData := gData t @ delta_bytes (gWait t) @ note_off (gIndx t) n @
                         concat (map (\<lambda>m. 0 # note_off (gIndx t) m) ns) @ [0, 0xFF, 0x2F, 0]\<rparr> \<and>
            track_body e i (s', c) = Some (Inr (s', c)) \<and>
            (k \<noteq> i \<and> i < length (gTrack u) \<and> track_body e k (u, d) = Some (Inr (u', d')) \<longrightarrow>
               length (gTrack u') = length (gTrack u) \<and>
               (gTrack u' ! i = gTrack u ! i \<or> (\<exists>adr. gTrack u' ! i = Start adr (gTrack u ! i)))) \<and>
            (k \<noteq> i \<and> i < length (gTrack v) \<and> step e k v = Inr (v', l) \<longrightarrow>
               length (gTrack v') = length (gTrack v) \<and>
               (gTrack v' ! i = gTrack v ! i \<or>
                fst (fgetc (rseq e) (rpos v)) = 0x88 \<and> split_target e v = i \<and>
                (\<exists>adr. gTrack v' ! i = Start adr (gTrack v ! i)) \<and>
                gStat (gTrack v' ! i) = 1 \<and> gData (gTrack v' ! i) = []))"
proof -
  have "gTrack (on_trk i mEnd s) ! i = mEnd (gTrack s ! i)"
    using assms(1) by (simp add: on_trk_def)
  moreover have "gStat (mEnd (gTrack s ! i)) = 0"
    by (simp add: mEnd_eq [OF assms(2)])
  ultimately have ab: "gTrack (on_trk i mEnd s) ! i =
      (gTrack s ! i)\<lparr>gStat := 0, gWait := 0, gNote := [],
         gData := gData (gTrack s ! i) @ delta_bytes (gWait (gTrack s ! i)) @
                  note_off (gIndx (gTrack s ! i)) n @
                  concat (map (\<lambda>m. 0 # note_off (gIndx (gTrack s ! i)) m) ns) @ [0, 0xFF, 0x2F, 0]\<rparr> \<and>
      track_body e i (on_trk i mEnd s, c) = Some (Inr (on_trk i mEnd s, c))"
    by (simp add: track_body_inactive mEnd_eq [OF assms(2)])
  have visit: "length (gTrack u') = length (gTrack u) \<and>
               (gTrack u' ! i = gTrack u ! i \<or> (\<exists>adr. gTrack u' ! i = Start adr (gTrack u ! i)))"
    if "k \<noteq> i" "i < length (gTrack u)" "track_body e k (u, d) = Some (Inr (u', d'))"
    using that by (rule track_body_frame)
  have turn: "length (gTrack v') = length (gTrack v) \<and>
               (gTrack v' ! i = gTrack v ! i \<or>
                fst (fgetc (rseq e) (rpos v)) = 0x88 \<and> split_target e v = i \<and>
                (\<exists>adr. gTrack v' ! i = Start adr (gTrack v ! i)) \<and>
                gStat (gTrack v' ! i) = 1 \<and> gData (gTrack v' ! i) = [])"
    if "k \<noteq> i" "i < length (gTrack v)" "step e k v = Inr (v', l)"
    using step_frame [OF that] by (auto simp add: Start_def)
  from ab visit turn show ?thesis
    unfolding Let_def by blast
qed

theorem end_flushes_in_stored_order_witness:
  "gTrack (on_trk 0 mEnd
      (on_trk 0 (mNoteOn 62 100 50) (on_trk 0 (mNoteOn 60 100 100) init_state))) ! 0 =
     \<lparr>gIndx = 0, gStat = 0, gTrns = 0, gRPNR = 0, gWait = 0, gDPos = 0, gGPos = 0, gRPos = 0,
      gNote = [],
      gData = [0, 0x90, 60, 100,  0, 0x90, 62, 100,  0, 0x90, 60, 0,  0, 0x90, 62, 0,
               0, 0xFF, 0x2F, 0]\<rparr> \<and>
   map_sum id (\<lambda>r. gTrack (fst r) ! 0)
     (step (env_of [60, 100, 10,  0x88, 0, 0, 0, 9,  0xFF,  0xFF] False False) 1
        (on_trk 0 mEnd
           (on_trk 0 (mNoteOn 62 100 50) (on_trk 0 (mNoteOn 60 100 100) init_state)))) =
     Inr (gTrack (on_trk 0 mEnd
           (on_trk 0 (mNoteOn 62 100 50) (on_trk 0 (mNoteOn 60 100 100) init_state))) ! 0) \<and>
   map_sum id (\<lambda>r. (gStat (gTrack (fst r) ! 0), gDPos (gTrack (fst r) ! 0), gData (gTrack (fst r) ! 0)))
     (step (env_of [60, 100, 10,  0x88, 0, 0, 0, 9,  0xFF,  0xFF] False False) 1
        ((on_trk 0 mEnd
           (on_trk 0 (mNoteOn 62 100 50) (on_trk 0 (mNoteOn 60 100 100) init_state)))\<lparr>rpos := 3\<rparr>)) =
     Inr (1, 9, []) \<and>
   map_option (map_sum id (\<lambda>r. (gStat (gTrack (fst r) ! 0), gDPos (gTrack (fst r) ! 0),
                                   gData (gTrack (fst r) ! 0))))
     (track_body (env_of [60, 100, 10,  0x88, 0, 0, 0, 9,  0xFF,  0xFF] False False) 1
        (on_trk 1 (Start 3) (on_trk 0 mEnd
           (on_trk 0 (mNoteOn 62 100 50) (on_trk 0 (mNoteOn 60 100 100) init_state))), False)) =
     Some (Inr (1, 9, []))"
proof -
  let ?s = "on_trk 0 (mNoteOn 62 100 50) (on_trk 0 (mNoteOn 60 100 100) init_state)"
  let ?e = "env_of [60, 100, 10,  0x88, 0, 0, 0, 9,  0xFF,  0xFF] False False"
  let ?u = "on_trk 0 mEnd ?s"
  have t: "gTrack ?s ! 0 =
     \<lparr>gIndx = 0, gStat = 0, gTrns = 0, gRPNR = 0, gWait = 0, gDPos = 0, gGPos = 0, gRPos = 0,
      gNote = [\<lparr>key = 60, pos = 100\<rparr>, \<lparr>key = 62, pos = 50\<rparr>],
      gData = [0, 0x90, 60, 100,  0, 0x90, 62, 100]\<rparr>"
    by (simp add: run_eval)
  have h1: "0 < length (gTrack ?s)" by simp
  have h2: "gNote (gTrack ?s ! 0) = \<lparr>key = 60, pos = 100\<rparr> # [\<lparr>key = 62, pos = 50\<rparr>]"
    by (simp add: t)
  have e: "rseq ?e = [60, 100, 10,  0x88, 0, 0, 0, 9,  0xFF,  0xFF]" "gLabels ?e = (\<lambda>_. None)"
    "mdOff ?e = 0"
    by (simp_all add: env_of_def)
  have r: "rpos ?u = 0" "rpos init_state = 0" by (simp_all add: init_state_def)
  have n1: "rpos ?u + 2 < length (rseq ?e)" "rseq ?e ! rpos ?u < 0x80"
    "rseq ?e ! (rpos ?u + 2) < 0x80" "gLabels ?e (curpos_of ?e ?u) = None"
    by (simp_all add: e r)
  note st1 = step_note_short [OF n1, of 1]
  have l: "0 < length (gTrack ?u)" "0 < length (gTrack (?u\<lparr>rpos := 3\<rparr>))" "(1::nat) \<noteq> 0"
    by simp_all
  have ne: "gTrack ?u \<noteq> []"
    using l(1) unfolding length_greater_0_conv .
  have "gTrack ?u ! 0 = mEnd (gTrack ?s ! 0)"
    unfolding on_trk_def [of 0 mEnd] using h1 by simp
  then have gi: "gIndx (gTrack ?u ! 0) = 0"
    by (simp add: mEnd_gIndx t)
  have st2: "step ?e 1 (?u\<lparr>rpos := 3\<rparr>) =
      Inr (DebugMsg ''  Trk %02u started from 0x%X...\<newline>'' [U 0, U 9]
             (on_trk 0 (Start 9) (?u\<lparr>rpos := 8\<rparr>)), True)"
    by (simp add: step_def put_label_def curpos_of_def e rd_def fgetc_def exec_cmd_def do_split_def
        rdBE_def ReadBE_8 ReadBE_24 Let_def r ne gi)
  have ns: "fst (fgetc (rseq ?e) (rpos ?u)) \<noteq> 0x88"
    by (simp add: e r fgetc_def)
  from end_flushes_in_stored_order [OF h1 h2, where e = ?e and k = 1 and v = ?u and l = True] st1 l ns
  have a: "gTrack ?u ! 0 =
     \<lparr>gIndx = 0, gStat = 0, gTrns = 0, gRPNR = 0, gWait = 0, gDPos = 0, gGPos = 0, gRPos = 0,
      gNote = [],
      gData = [0, 0x90, 60, 100,  0, 0x90, 62, 100,  0, 0x90, 60, 0,  0, 0x90, 62, 0,
               0, 0xFF, 0x2F, 0]\<rparr>"
    and b: "map_sum id (\<lambda>r. gTrack (fst r) ! 0) (step ?e 1 ?u) = Inr (gTrack ?u ! 0)"
    unfolding Let_def t by (simp_all add: delta_bytes_0 note_off_def)
  from end_flushes_in_stored_order [OF h1 h2, where e = ?e and k = 1 and v = "?u\<lparr>rpos := 3\<rparr>" and l = True] st2 l
  have c: "map_sum id (\<lambda>r. (gStat (gTrack (fst r) ! 0), gDPos (gTrack (fst r) ! 0), gData (gTrack (fst r) ! 0)))
     (step ?e 1 (?u\<lparr>rpos := 3\<rparr>)) = Inr (1, 9, [])"
    unfolding Let_def by (simp add: on_trk_def Start_def)
  have tb: "map_option (map_sum id (\<lambda>r. (gStat (gTrack (fst r) ! 0), gDPos (gTrack (fst r) ! 0),
                                   gData (gTrack (fst r) ! 0))))
      (track_body ?e 1 (on_trk 1 (Start 3) ?u, False)) = Some (Inr (1, 9, []))"
    by (simp add: run_eval do_split_def rdBE_def ReadBE_8 ReadBE_24 Let_def)
  from a b c tb show ?thesis by (intro conjI)
qed

text \<open>
  The claim as stated fails. With three notes sounding at the end of the track, of end
  ticks 100, 50 and 70 and keys 60, 62 and 60, the note-offs come in that order: not by
  ascending end tick, and key 60 twice. And the buffer of an ended track is modified
  later when a split restarts the track: track 0 ends holding a note-on, its note-off
  and the end of track; track 1, which it started, restarts track 0, and the file
  written holds only the end of track for track 0.
\<close>

theorem end_flush_order_counterexample:
  "map_option (\<lambda>s. gNote (gTrack s ! 0))
     (run_steps (env_of [60, 100, 100,  62, 100, 50,  60, 100, 70,  0xFF] False False) 0 3
        (entry_state (env_of [60, 100, 100,  62, 100, 50,  60, 100, 70,  0xFF] False False))) =
     Some [\<lparr>key = 60, pos = 100\<rparr>, \<lparr>key = 62, pos = 50\<rparr>, \<lparr>key = 60, pos = 70\<rparr>] \<and>
   rseqDo (env_of [60, 100, 100,  62, 100, 50,  60, 100, 70,  0xFF] False False) init_state =
     Some (Inr ([0x4D, 0x54, 0x68, 0x64, 0, 0, 0, 6, 0, 1, 0, 1, 0, 96] @
                [0x4D, 0x54, 0x72, 0x6B, 0, 0, 0, 28] @
                [0, 0x90, 60, 100,  0, 0x90, 62, 100,  0, 0x90, 60, 100,
                 0, 0x90, 60, 0,  0, 0x90, 62, 0,  0, 0x90, 60, 0,
                 0, 0xFF, 0x2F, 0])) \<and>
   map_option (\<lambda>s. gData (gTrack s ! 0))
     (run_steps (env_of [60, 100, 10,  0x88, 1, 0, 0, 9,  0xFF,  0x88, 0, 0, 0, 15,  0xFF,  0xFF]
                   False False) 0 3
        (entry_state (env_of [60, 100, 10,  0x88, 1, 0, 0, 9,  0xFF,  0x88, 0, 0, 0, 15,  0xFF,  0xFF]
                        False False))) =
     Some [0, 0x90, 60, 100,  0, 0x90, 60, 0,  0, 0xFF, 0x2F, 0] \<and>
   rseqDo (env_of [60, 100, 10,  0x88, 1, 0, 0, 9,  0xFF,  0x88, 0, 0, 0, 15,  0xFF,  0xFF]
             False False) init_state =
     Some (Inr ([0x4D, 0x54, 0x68, 0x64, 0, 0, 0, 6, 0, 1, 0, 2, 0, 96] @
                [0x4D, 0x54, 0x72, 0x6B, 0, 0, 0, 4] @ [0, 0xFF, 0x2F, 0] @
                [0x4D, 0x54, 0x72, 0x6B, 0, 0, 0, 4] @ [0, 0xFF, 0x2F, 0]))"
proof -
  have "map_option (\<lambda>s. gNote (gTrack s ! 0))
     (run_steps (env_of [60, 100, 100,  62, 100, 50,  60, 100, 70,  0xFF] False False) 0 3
        (entry_state (env_of [60, 100, 100,  62, 100, 50,  60, 100, 70,  0xFF] False False))) =
     Some [\<lparr>key = 60, pos = 100\<rparr>, \<lparr>key = 62, pos = 50\<rparr>, \<lparr>key = 60, pos = 70\<rparr>]"
    by (simp add: run_eval run_steps_numeral)
  moreover have "rseqDo (env_of [60, 100, 100,  62, 100, 50,  60, 100, 70,  0xFF] False False) init_state =
     Some (Inr ([0x4D, 0x54, 0x68, 0x64, 0, 0, 0, 6, 0, 1, 0, 1, 0, 96] @
                [0x4D, 0x54, 0x72, 0x6B, 0, 0, 0, 28] @
                [0, 0x90, 60, 100,  0, 0x90, 62, 100,  0, 0x90, 60, 100,
                 0, 0x90, 60, 0,  0, 0x90, 62, 0,  0, 0x90, 60, 0,
                 0, 0xFF, 0x2F, 0]))"
    by (simp add: run_eval)
  moreover have "map_option (\<lambda>s. gData (gTrack s ! 0))
     (run_steps (env_of [60, 100, 10,  0x88, 1, 0, 0, 9,  0xFF,  0x88, 0, 0, 0, 15,  0xFF,  0xFF]
                   False False) 0 3
        (entry_state (env_of [60, 100, 10,  0x88, 1, 0, 0, 9,  0xFF,  0x88, 0, 0, 0, 15,  0xFF,  0xFF]
                        False False))) =
     Some [0, 0x90, 60, 100,  0, 0x90, 60, 0,  0, 0xFF, 0x2F, 0]"
    by (simp add: run_eval run_steps_numeral do_split_def rdBE_def ReadBE_8 ReadBE_24 Let_def)
  moreover have "rseqDo (env_of [60, 100, 10,  0x88, 1, 0, 0, 9,  0xFF,  0x88, 0, 0, 0, 15,  0xFF,  0xFF]
             False False) init_state =
     Some (Inr ([0x4D, 0x54, 0x68, 0x64, 0, 0, 0, 6, 0, 1, 0, 2, 0, 96] @
                [0x4D, 0x54, 0x72, 0x6B, 0, 0, 0, 4] @ [0, 0xFF, 0x2F, 0] @
                [0x4D, 0x54, 0x72, 0x6B, 0, 0, 0, 4] @ [0, 0xFF, 0x2F, 0]))"
    by (simp add: run_eval do_split_def rdBE_def ReadBE_8 ReadBE_24 Let_def)
  ultimately show ?thesis by (intro conjI)
qed

subsection \<open>The jump\<close>

lemma mMetaEvent_eq:
  "mMetaEvent type data trk =
     trk\<lparr>gWait := 0,
         gData := gData trk @ delta_bytes (gWait trk) @ [0xFF, type] @
                  delta_bytes (word_of_nat (length data)) @
                  take (unat (word_of_nat (length data) :: u32)) data\<rparr>"
  by (simp add: mMetaEvent_def Event_eq PushDelta_eq status_FF Let_def)

lemma delta_bytes_jump:
  "delta_bytes 22 = [22]" "delta_bytes 23 = [23]" "delta_bytes 24 = [24]"
  "delta_bytes 25 = [25]" "delta_bytes 26 = [26]" "delta_bytes 27 = [27]"
  by (simp_all add: delta_bytes_def PushDelta_count.simps PushDelta_write.simps)

text \<open>The text event of a jump: the buffer's 31 characters hold each of the texts whole.\<close>

lemma jump_event:
  assumes "dir = ''forwards'' \<or> dir = ''backwards''"
    and "msg = ''ignored'' \<or> msg = ''taken'' \<or> msg = ''Track End''"
  shows "mMetaEvent 0x06 (jump_text dir msg) t =
           t\<lparr>gWait := 0,
             gData := gData t @ delta_bytes (gWait t) @
                      [0xFF, 0x06, of_nat (length (jump_text dir msg))] @ jump_text dir msg\<rparr>"
  using assms
  by (auto simp add: mMetaEvent_eq jump_text_def bytes_of_def delta_bytes_jump)

lemma on_trk_eq: "on_trk i f s = s\<lparr>gTrack := (gTrack s)[i := f (gTrack s ! i)]\<rparr>"
  by (simp add: on_trk_def)

lemma on_trk_twice: "on_trk i f (on_trk i g s) = on_trk i (\<lambda>t. f (g t)) s"
  by (cases "i < length (gTrack s)") (simp_all add: on_trk_def not_less list_update_beyond)

lemma step_jump:
  assumes "rpos s + 3 < length (rseq e)" and "rseq e ! rpos s = 0x89"
  shows "step e i s = do_jump e i ((put_label e i s)\<lparr>rpos := rpos s + 1\<rparr>)"
  using assms by (simp add: step_def rd_in exec_cmd_def Let_def)


lemma do_jump_cases:
  assumes "rpos s + 3 < length (rseq e)" and "rseq e ! rpos s = 0x89"
  shows "let adr = jump_adr e s;
             fwd = (rpos s + 4 < unat adr);
             dir = (if fwd then ''forwards'' else ''backwards'');
             s1 = DebugMsg ''  Trk %02u: Jump (%s) to 0x%X\<newline>'' [U (word_of_nat i), S dir, U adr]
                    ((put_label e i s)\<lparr>rpos := rpos s + 4\<rparr>)
         in (ignoreJumps e \<longrightarrow>
               step e i s = Inr (on_trk i (mMetaEvent 0x06 (jump_text dir ''ignored'')) s1, True)) \<and>
            (\<not> ignoreJumps e \<and> fwd \<longrightarrow>
               step e i s =
                 Inr ((on_trk i (\<lambda>t. t\<lparr>gDPos := adr\<rparr>)
                        (on_trk i (mMetaEvent 0x06 (jump_text ''forwards'' ''taken'')) s1))\<lparr>rpos := unat adr\<rparr>, True)) \<and>
            (\<not> ignoreJumps e \<and> \<not> fwd \<longrightarrow>
               step e i s =
                 Inr (on_trk i mEnd (on_trk i (mMetaEvent 0x06 (jump_text ''backwards'' ''Track End'')) s1), False))"
  using assms
  by (simp add: step_def rd_in exec_cmd_def do_jump_def rdBE_def ReadBE_24 fgetc_in jump_adr_def
      jump_text_def Let_def add_2_Suc add_3_Suc add_4_Suc)

text \<open>
  Claim C5. For a jump command (0x89) with its three address bytes in the file: the
  target is the address read plus \<^verbatim>\<open>mdOff\<close>, and the jump is forwards when the target is
  strictly greater than the position after the instruction, backwards otherwise. In all
  cases the turn logs the jump and appends to the track's buffer, after the pending
  delta, the text event \<^verbatim>\<open>FF 06 len\<close> with the text \<^verbatim>\<open>Jump (direction, decision)\<close>,
  and clears the pending delta. With \<^verbatim>\<open>ignoreJumps\<close> the decision is \<^verbatim>\<open>ignored\<close>: the
  file position is right after the instruction, the track is otherwise unchanged and
  the loop goes on. Without it, a forward jump is \<^verbatim>\<open>taken\<close>: the position of the file
  and \<^verbatim>\<open>gDPos\<close> move to the target and the loop goes on; a backward jump is the
  \<^verbatim>\<open>Track End\<close>: the track is ended as by \<^verbatim>\<open>mEnd\<close> (a note-off at delta 0 for each
  sounding note, the end-of-track event, no sounding note left, \<^verbatim>\<open>gStat = 0\<close>) and the
  loop stops.
\<close>

theorem jump_policy:
  assumes "rpos s + 3 < length (rseq e)" and "rseq e ! rpos s = 0x89"
  shows "let adr = jump_adr e s;
             fwd = (rpos s + 4 < unat adr);
             dir = (if fwd then ''forwards'' else ''backwards'');
             s0 = put_label e i s;
             t = gTrack s0 ! i;
             s1 = DebugMsg ''  Trk %02u: Jump (%s) to 0x%X\<newline>'' [U (word_of_nat i), S dir, U adr]
                    (s0\<lparr>rpos := rpos s + 4\<rparr>);
             annotated = (\<lambda>msg. gData t @ delta_bytes (gWait t) @
                            [0xFF, 0x06, of_nat (length (jump_text dir msg))] @ jump_text dir msg);
             offs = concat (map (\<lambda>m. 0 # note_off (gIndx t) m) (gNote t))
         in (ignoreJumps e \<longrightarrow>
               step e i s =
                 Inr (s1\<lparr>gTrack := (gTrack s0)[i := t\<lparr>gWait := 0, gData := annotated ''ignored''\<rparr>]\<rparr>,
                      True)) \<and>
            (\<not> ignoreJumps e \<and> fwd \<longrightarrow>
               step e i s =
                 Inr (s1\<lparr>gTrack := (gTrack s0)[i := t\<lparr>gWait := 0, gDPos := adr,
                                                       gData := annotated ''taken''\<rparr>],
                         rpos := unat adr\<rparr>, True)) \<and>
            (\<not> ignoreJumps e \<and> \<not> fwd \<longrightarrow>
               step e i s =
                 Inr (s1\<lparr>gTrack := (gTrack s0)[i := t\<lparr>gStat := 0, gWait := 0, gNote := [],
                         gData := annotated ''Track End'' @ offs @ [0, 0xFF, 0x2F, 0]\<rparr>]\<rparr>, False))"
proof -
  define adr where "adr = jump_adr e s"
  define fwd where "fwd = (rpos s + 4 < unat adr)"
  define dir where "dir = (if fwd then ''forwards'' else ''backwards'')"
  define s0 where "s0 = put_label e i s"
  define t where "t = gTrack s0 ! i"
  define s1 where "s1 = DebugMsg ''  Trk %02u: Jump (%s) to 0x%X\<newline>''
                          [U (word_of_nat i), S dir, U adr] (s0\<lparr>rpos := rpos s + 4\<rparr>)"
  define annotated where "annotated = (\<lambda>msg. gData t @ delta_bytes (gWait t) @
                            [0xFF, 0x06, of_nat (length (jump_text dir msg))] @ jump_text dir msg)"
  define offs where "offs = concat (map (\<lambda>m. 0 # note_off (gIndx t) m) (gNote t))"
  have dir: "dir = ''forwards'' \<or> dir = ''backwards''"
    by (simp add: dir_def)
  have g1: "gTrack s1 = gTrack s0"
    by (simp add: s1_def)
  have ev: "mMetaEvent 0x06 (jump_text dir msg) t = t\<lparr>gWait := 0, gData := annotated msg\<rparr>"
    if "msg = ''ignored'' \<or> msg = ''taken'' \<or> msg = ''Track End''" for msg
    unfolding annotated_def using dir that by (rule jump_event)
  have put: "on_trk i f s1 = s1\<lparr>gTrack := (gTrack s0)[i := f t]\<rparr>" for f
    by (simp add: on_trk_eq g1 t_def)
  have put2: "on_trk i f (on_trk i g s1) = s1\<lparr>gTrack := (gTrack s0)[i := f (g t)]\<rparr>" for f g
    unfolding on_trk_twice by (rule put)
  note c = do_jump_cases [OF assms, of i, unfolded Let_def, folded adr_def, folded fwd_def,
      folded dir_def, folded s0_def, folded s1_def]
  have a: "step e i s = Inr (s1\<lparr>gTrack := (gTrack s0)[i := t\<lparr>gWait := 0, gData := annotated ''ignored''\<rparr>]\<rparr>, True)"
    if "ignoreJumps e"
    using c that by (simp add: put ev)
  have b: "step e i s = Inr (s1\<lparr>gTrack := (gTrack s0)[i := t\<lparr>gWait := 0, gDPos := adr,
                                                       gData := annotated ''taken''\<rparr>],
                         rpos := unat adr\<rparr>, True)"
    if "\<not> ignoreJumps e" "fwd"
  proof -
    have f: "dir = ''forwards''" using that by (simp add: dir_def)
    note ev' = ev [of "''taken''", unfolded f]
    have "t\<lparr>gWait := 0, gData := annotated ''taken'', gDPos := adr\<rparr> =
          t\<lparr>gWait := 0, gDPos := adr, gData := annotated ''taken''\<rparr>"
      by (cases t) simp
    with c that show ?thesis
      unfolding put2 by (simp add: ev')
  qed
  have d: "step e i s = Inr (s1\<lparr>gTrack := (gTrack s0)[i := t\<lparr>gStat := 0, gWait := 0, gNote := [],
                         gData := annotated ''Track End'' @ offs @ [0, 0xFF, 0x2F, 0]\<rparr>]\<rparr>, False)"
    if "\<not> ignoreJumps e" "\<not> fwd"
  proof -
    have f: "dir = ''backwards''" using that by (simp add: dir_def)
    note ev' = ev [of "''Track End''", unfolded f]
    have "t\<lparr>gWait := 0, gStat := 0, gNote := [],
              gData := annotated ''Track End'' @ offs @ [0, 0xFF, 0x2F, 0]\<rparr> =
          t\<lparr>gStat := 0, gWait := 0, gNote := [],
              gData := annotated ''Track End'' @ offs @ [0, 0xFF, 0x2F, 0]\<rparr>"
      by (cases t) simp
    with c that show ?thesis
      unfolding put2 offs_def by (simp add: ev' mEnd_pending0)
  qed
  from a b d show ?thesis
    unfolding Let_def annotated_def offs_def s1_def t_def s0_def dir_def fwd_def adr_def
    by blast
qed


theorem jump_policy_witness:
  "map_sum id (\<lambda>r. (gTrack (fst r) ! 0, rpos (fst r), snd r))
     (step (env_of [0x89, 0, 0, 0, 0xFF] False False) 0
        (on_trk 0 (mNoteOn 60 100 10) (entry_state (env_of [0x89, 0, 0, 0, 0xFF] False False)))) =
     Inr (\<lparr>gIndx = 0, gStat = 0, gTrns = 0, gRPNR = 0, gWait = 0, gDPos = 0, gGPos = 0, gRPos = 0,
           gNote = [],
           gData = [0, 0x90, 60, 100,  0, 0xFF, 0x06, 27] @ bytes_of ''Jump (backwards, Track End)'' @
                   [0, 0x90, 60, 0,  0, 0xFF, 0x2F, 0]\<rparr>, 4, False) \<and>
   map_sum id (\<lambda>r. (gTrack (fst r) ! 0, rpos (fst r), snd r))
     (step (env_of [0x89, 0, 0, 6, 0xFF, 0xFF, 0xFF] False False) 0
        (on_trk 0 (mNoteOn 60 100 10)
           (entry_state (env_of [0x89, 0, 0, 6, 0xFF, 0xFF, 0xFF] False False)))) =
     Inr (\<lparr>gIndx = 0, gStat = 1, gTrns = 0, gRPNR = 0, gWait = 0, gDPos = 6, gGPos = 0, gRPos = 0,
           gNote = [\<lparr>key = 60, pos = 10\<rparr>],
           gData = [0, 0x90, 60, 100,  0, 0xFF, 0x06, 22] @ bytes_of ''Jump (forwards, taken)''\<rparr>,
          6, True) \<and>
   map_sum id (\<lambda>r. (gTrack (fst r) ! 0, rpos (fst r), snd r))
     (step (env_of [0x89, 0, 0, 0, 0xFF] True False) 0
        (on_trk 0 (mNoteOn 60 100 10) (entry_state (env_of [0x89, 0, 0, 0, 0xFF] True False)))) =
     Inr (\<lparr>gIndx = 0, gStat = 1, gTrns = 0, gRPNR = 0, gWait = 0, gDPos = 0, gGPos = 0, gRPos = 0,
           gNote = [\<lparr>key = 60, pos = 10\<rparr>],
           gData = [0, 0x90, 60, 100,  0, 0xFF, 0x06, 25] @ bytes_of ''Jump (backwards, ignored)''\<rparr>,
          4, True) \<and>
   map_sum id (\<lambda>r. (gTrack (fst r) ! 0, rpos (fst r), snd r))
     (step (env_of [0x89, 0, 0, 6, 0xFF, 0xFF, 0xFF] True False) 0
        (on_trk 0 (mNoteOn 60 100 10)
           (entry_state (env_of [0x89, 0, 0, 6, 0xFF, 0xFF, 0xFF] True False)))) =
     Inr (\<lparr>gIndx = 0, gStat = 1, gTrns = 0, gRPNR = 0, gWait = 0, gDPos = 0, gGPos = 0, gRPos = 0,
           gNote = [\<lparr>key = 60, pos = 10\<rparr>],
           gData = [0, 0x90, 60, 100,  0, 0xFF, 0x06, 24] @ bytes_of ''Jump (forwards, ignored)''\<rparr>,
          4, True)"
proof -
  have sound: "rpos (on_trk 0 (mNoteOn 60 100 10) (entry_state (env_of code ij False))) = 0 \<and>
      length (gTrack (on_trk 0 (mNoteOn 60 100 10) (entry_state (env_of code ij False)))) = 16 \<and>
      put_label (env_of code ij False) 0
          (on_trk 0 (mNoteOn 60 100 10) (entry_state (env_of code ij False))) =
        on_trk 0 (mNoteOn 60 100 10) (entry_state (env_of code ij False)) \<and>
      gTrack (on_trk 0 (mNoteOn 60 100 10) (entry_state (env_of code ij False))) ! 0 =
        \<lparr>gIndx = 0, gStat = 1, gTrns = 0, gRPNR = 0, gWait = 0, gDPos = 0, gGPos = 0, gRPos = 0,
         gNote = [\<lparr>key = 60, pos = 10\<rparr>], gData = [0, 0x90, 60, 100]\<rparr>" for code ij
    by (simp add: run_eval)
  let ?a = "env_of [0x89, 0, 0, 0, 0xFF] False False"
  let ?b = "env_of [0x89, 0, 0, 6, 0xFF, 0xFF, 0xFF] False False"
  let ?c = "env_of [0x89, 0, 0, 0, 0xFF] True False"
  let ?d = "env_of [0x89, 0, 0, 6, 0xFF, 0xFF, 0xFF] True False"
  let ?S = "\<lambda>e. on_trk 0 (mNoteOn 60 100 10) (entry_state e)"
  have a: "rpos (?S ?a) + 3 < length (rseq ?a)" "rseq ?a ! rpos (?S ?a) = 0x89"
    and b: "rpos (?S ?b) + 3 < length (rseq ?b)" "rseq ?b ! rpos (?S ?b) = 0x89"
    and c: "rpos (?S ?c) + 3 < length (rseq ?c)" "rseq ?c ! rpos (?S ?c) = 0x89"
    and d: "rpos (?S ?d) + 3 < length (rseq ?d)" "rseq ?d ! rpos (?S ?d) = 0x89"
    by (simp_all add: entry_state_facts env_of_def)
  have r: "rpos (?S ?a) + 4 = 4" "rpos (?S ?b) + 4 = 4" "rpos (?S ?c) + 4 = 4" "rpos (?S ?d) + 4 = 4"
    "jump_adr ?a (?S ?a) = 0" "jump_adr ?b (?S ?b) = 6"
    "jump_adr ?c (?S ?c) = 0" "jump_adr ?d (?S ?d) = 6"
    "ignoreJumps ?a = False" "ignoreJumps ?b = False" "ignoreJumps ?c = True" "ignoreJumps ?d = True"
    by (simp_all add: entry_state_facts env_of_def jump_adr_def)
  note f = sound [of "[0x89, 0, 0, 0, 0xFF]" False] sound [of "[0x89, 0, 0, 6, 0xFF, 0xFF, 0xFF]" False]
    sound [of "[0x89, 0, 0, 0, 0xFF]" True] sound [of "[0x89, 0, 0, 6, 0xFF, 0xFF, 0xFF]" True]
  from jump_policy [OF a, of 0] jump_policy [OF b, of 0] jump_policy [OF c, of 0]
    jump_policy [OF d, of 0]
  show ?thesis
    unfolding r Let_def
    by (simp add: f entry_state_facts(1) jump_text_def bytes_of_def note_off_def delta_bytes_0)
qed

subsection \<open>Waiting\<close>

lemma reached_Cons: "reached g (n # ns) = reached (pos n) ns"
  by (simp add: reached_def)

lemma Wait_loop_eq:
  "Wait_loop pPos kept ns (t, left) =
     (t\<lparr>gNote := kept @ filter (\<lambda>n. pPos < pos n) ns,
        gData := gData t @ offs_from (gIndx t) (gGPos t) (filter (\<lambda>n. pos n \<le> pPos) ns),
        gGPos := reached (gGPos t) (filter (\<lambda>n. pos n \<le> pPos) ns)\<rparr>,
      left - (reached (gGPos t) (filter (\<lambda>n. pos n \<le> pPos) ns) - gGPos t))"
proof (induction ns arbitrary: kept t left)
  case Nil
  show ?case by (simp add: reached_def)
next
  case (Cons n ns)
  show ?case
  proof (cases "pPos < pos n")
    case True
    then have "\<not> pos n \<le> pPos" by simp
    with True show ?thesis by (simp add: Cons.IH)
  next
    case False
    then have le: "pos n \<le> pPos" by simp
    show ?thesis
      using False le
      by (simp add: Cons.IH Let_def PushDelta_eq note_off_def reached_Cons)
  qed
qed

lemma Wait_eq:
  "Wait qs timeLeft t =
     (let ns = (if gNote t \<noteq> [] then qs NoteSortCmp (gNote t) else []);
          target = gGPos t + timeLeft;
          due = filter (\<lambda>n. pos n \<le> target) ns
      in t\<lparr>gNote := filter (\<lambda>n. target < pos n) ns,
           gData := gData t @ offs_from (gIndx t) (gGPos t) due,
           gGPos := target,
           gWait := gWait t + (target - reached (gGPos t) due)\<rparr>)"
  by (simp add: Wait_def Wait_loop_eq Let_def)








subsection \<open>Tick positions and sounding notes\<close>

lemma Event_time [simp]: "gGPos (Event ev argv t) = gGPos t" "gNote (Event ev argv t) = gNote t"
  by (simp_all add: Event_eq)

lemma mMetaEvent_time [simp]:
  "gGPos (mMetaEvent ty data t) = gGPos t" "gNote (mMetaEvent ty data t) = gNote t"
  by (simp_all add: mMetaEvent_def PushDelta_eq Let_def)

lemma emitters_time [simp]:
  "gGPos (mGenCtrl a b t) = gGPos t" "gNote (mGenCtrl a b t) = gNote t"
  "gGPos (mVol v t) = gGPos t" "gNote (mVol v t) = gNote t"
  "gGPos (mPan v t) = gGPos t" "gNote (mPan v t) = gNote t"
  "gGPos (mExp v t) = gGPos t" "gNote (mExp v t) = gNote t"
  "gGPos (mPrg v t) = gGPos t" "gNote (mPrg v t) = gNote t"
  "gGPos (mBnd v t) = gGPos t" "gNote (mBnd v t) = gNote t"
  "gGPos (mBndRng v t) = gGPos t" "gNote (mBndRng v t) = gNote t"
  "gGPos (mNRPN m l v t) = gGPos t" "gNote (mNRPN m l v t) = gNote t"
  by (simp_all add: mGenCtrl_def mVol_def mPan_def mExp_def mPrg_def mBnd_def mBndRng_def
      mNRPN_def Let_def)

lemma mEnd_flush_time [simp]:
  "gGPos (mEnd_flush ns t) = gGPos t" "gNote (mEnd_flush ns t) = gNote t"
  by (induction ns arbitrary: t) (simp_all add: PushDelta_eq Let_def)

lemma mEnd_time [simp]: "gGPos (mEnd t) = gGPos t" "gNote (mEnd t) = []"
  by (simp_all add: mEnd_def Let_def)

lemma mTmp_time:
  "mTmp v t = Inr t' \<Longrightarrow> gGPos t' = gGPos t \<and> gNote t' = gNote t"
  by (auto simp add: mTmp_def Let_def split: if_splits)

lemma keeps_time_refl [simp]: "keeps_time s s"
  by (simp add: keeps_time_def)

lemma keeps_time_trans: "keeps_time a b \<Longrightarrow> keeps_time b c \<Longrightarrow> keeps_time a c"
  unfolding keeps_time_def by (metis subset_trans)

lemma keeps_time_same: "gTrack s' = gTrack s \<Longrightarrow> keeps_time s s'"
  by (simp add: keeps_time_def)

lemma keeps_time_on_trk:
  assumes "\<And>t. gGPos (f t) = gGPos t \<and> set (gNote (f t)) \<subseteq> set (gNote t)"
  shows "keeps_time s (on_trk i f s)"
proof -
  have "gGPos ((gTrack s)[i := f (gTrack s ! i)] ! j) = gGPos (gTrack s ! j) \<and>
        set (gNote ((gTrack s)[i := f (gTrack s ! i)] ! j)) \<subseteq> set (gNote (gTrack s ! j))"
    if "j < length (gTrack s)" for j
    using that assms by (cases "j = i") simp_all
  then show ?thesis by (simp add: keeps_time_def on_trk_def)
qed

lemma keeps_time_on_trk': 
  assumes "keeps_time s s1" "\<And>t. gGPos (f t) = gGPos t \<and> set (gNote (f t)) \<subseteq> set (gNote t)"
  shows "keeps_time s (on_trk i f s1)"
  using assms(1) keeps_time_on_trk [of f s1 i, OF assms(2)] by (rule keeps_time_trans)

lemma keeps_time_rpos [simp]: "keeps_time s (s1\<lparr>rpos := p\<rparr>) = keeps_time s s1"
  by (simp add: keeps_time_def)

lemma keeps_time_DebugMsg [simp]: "keeps_time s (DebugMsg str args s1) = keeps_time s s1"
  by (simp add: keeps_time_def)

lemma keeps_time_rd [simp]: "keeps_time s (snd (rd e s1)) = keeps_time s s1"
  by (simp add: keeps_time_def)

lemma keeps_time_rdBE [simp]: "keeps_time s (snd (rdBE e b s1)) = keeps_time s s1"
  by (simp add: keeps_time_def)

lemma keeps_time_put_label: "keeps_time s (put_label e i s)"
  by (auto simp add: put_label_def intro: keeps_time_on_trk split: option.split)

lemma keeps_time_tempo:
  assumes "mTmp v (gTrack s1 ! i) = Inr t'"
  shows "keeps_time s1 (on_trk i (\<lambda>_. t') s1)"
proof -
  have "gGPos ((gTrack s1)[i := t'] ! j) = gGPos (gTrack s1 ! j) \<and>
        set (gNote ((gTrack s1)[i := t'] ! j)) \<subseteq> set (gNote (gTrack s1 ! j))"
    if "j < length (gTrack s1)" for j
    using that mTmp_time [OF assms] by (cases "j = i") simp_all
  then show ?thesis by (simp add: keeps_time_def on_trk_def)
qed

lemma exec_cmd_keeps:
  assumes "exec_cmd e i cmd cp s = Inr (s', l)" and "cmd \<noteq> 0x80" and "cmd \<noteq> 0x88"
  shows "keeps_time s s'"
proof (cases "cmd = 0xE1")
  case True
  obtain t' where t': "mTmp (fst (rdBE e 16 s)) (gTrack (snd (rdBE e 16 s)) ! i) = Inr t'"
    and s': "s' = on_trk i (\<lambda>_. t') (snd (rdBE e 16 s))"
    using assms(1) True
    by (auto simp add: exec_cmd_def split_def Let_def split: sum.splits)
  have "keeps_time s (snd (rdBE e 16 s))" by simp
  moreover have "keeps_time (snd (rdBE e 16 s)) s'"
    unfolding s' using t' by (rule keeps_time_tempo)
  ultimately show ?thesis by (rule keeps_time_trans)
next
  case False
  with assms show ?thesis
    by (auto simp add: exec_cmd_def dbg_ctrl2_def dbg_ctrl1_def ctrl1_def do_jump_def do_call_def
        do_return_def split_def Let_def
        intro!: keeps_time_on_trk' keeps_time_on_trk split: if_splits)
qed

lemma keeps_time_ahead:
  assumes "keeps_time s s'" and "notes_ahead s"
  shows "notes_ahead s'"
  unfolding notes_ahead_def
proof (intro ballI)
  fix t n assume "t \<in> set (gTrack s')" and n: "n \<in> set (gNote t)"
  then obtain j where j: "j < length (gTrack s')" "t = gTrack s' ! j"
    by (auto simp add: in_set_conv_nth)
  with assms(1) have jl: "j < length (gTrack s)" 
    and g: "gGPos t = gGPos (gTrack s ! j)" and sub: "set (gNote t) \<subseteq> set (gNote (gTrack s ! j))"
    by (simp_all add: keeps_time_def)
  from jl have "gTrack s ! j \<in> set (gTrack s)" by simp
  with assms(2) sub n have "gGPos (gTrack s ! j) \<le> pos n"
    by (auto simp add: notes_ahead_def)
  then show "gGPos t \<le> pos n" by (simp add: g)
qed

lemma mNoteOn_time:
  "gGPos (mNoteOn k v len t) = gGPos t"
  "gNote (mNoteOn k v len t) = gNote t @ [\<lparr>key = k, pos = gGPos t + len\<rparr>]"
  by (simp_all add: mNoteOn_def Let_def)

lemma Wait_time:
  "gGPos (Wait qs len t) = gGPos t + len"
  "\<forall>n \<in> set (gNote (Wait qs len t)). gGPos t + len < pos n"
  by (simp_all add: Wait_eq Let_def)

lemma no_wrap: "unat a + unat b < 2 ^ 32 \<Longrightarrow> (a :: u32) \<le> a + b"
  by (simp add: no_olen_add_nat)

lemma keeps_time_ok:
  assumes "keeps_time s s'" and "notes_ahead s"
  shows "length (gTrack s') = length (gTrack s) \<and>
         (\<forall>j < length (gTrack s). gGPos (gTrack s ! j) \<le> gGPos (gTrack s' ! j)) \<and>
         notes_ahead s'"
  using assms keeps_time_ahead [OF assms] by (simp add: keeps_time_def)

lemma track_update_ok:
  assumes k: "keeps_time s s0" and a: "notes_ahead s"
    and tr: "gTrack s' = (gTrack s0)[i := t']"
    and mono: "gGPos (gTrack s0 ! i) \<le> gGPos t'"
    and ahead: "\<forall>n \<in> set (gNote t'). gGPos t' \<le> pos n"
  shows "length (gTrack s') = length (gTrack s) \<and>
         (\<forall>j < length (gTrack s). gGPos (gTrack s ! j) \<le> gGPos (gTrack s' ! j)) \<and>
         notes_ahead s'"
proof (intro conjI allI impI)
  show len: "length (gTrack s') = length (gTrack s)"
    using k by (simp add: tr keeps_time_def)
  show "gGPos (gTrack s ! j) \<le> gGPos (gTrack s' ! j)" if "j < length (gTrack s)" for j
    using that k mono by (cases "j = i") (simp_all add: tr keeps_time_def)
  have a0: "notes_ahead s0" using k a by (rule keeps_time_ahead)
  show "notes_ahead s'"
    unfolding notes_ahead_def
  proof (intro ballI)
    fix t n assume t: "t \<in> set (gTrack s')" and n: "n \<in> set (gNote t)"
    from t have "t = t' \<or> t \<in> set (gTrack s0)"
      using set_update_subset_insert [of "gTrack s0" i t'] by (auto simp add: tr)
    then show "gGPos t \<le> pos n"
      using n ahead a0 by (auto simp add: notes_ahead_def)
  qed
qed

lemma step_wait_short:
  assumes "rpos s + 1 < length (rseq e)"
    and "rseq e ! rpos s = 0x80"
    and "rseq e ! (rpos s + 1) < 0x80"
    and "gLabels e (curpos_of e s) = None"
  shows "step e i s =
           Inr (on_trk i (Wait (qsort e) (ucast (rseq e ! (rpos s + 1)))) (s\<lparr>rpos := rpos s + 2\<rparr>), True)"
  using assms
  by (simp add: step_def put_label_None rd_in exec_cmd_def ReadVarLen_short add_2_Suc)

lemma track_reset_ok:
  assumes k: "keeps_time s s0" and a: "notes_ahead s"
    and tr: "gTrack s' = (gTrack s0)[j0 := t']"
    and zero: "gGPos t' = 0" and none: "gNote t' = []"
  shows "length (gTrack s') = length (gTrack s) \<and>
         (\<forall>j < length (gTrack s).
            gGPos (gTrack s ! j) \<le> gGPos (gTrack s' ! j) \<or>
            j = j0 \<and> gGPos (gTrack s' ! j) = 0 \<and> gNote (gTrack s' ! j) = []) \<and>
         notes_ahead s'"
proof (intro conjI allI impI)
  show len: "length (gTrack s') = length (gTrack s)"
    using k by (simp add: tr keeps_time_def)
  show "gGPos (gTrack s ! j) \<le> gGPos (gTrack s' ! j) \<or>
        j = j0 \<and> gGPos (gTrack s' ! j) = 0 \<and> gNote (gTrack s' ! j) = []"
    if "j < length (gTrack s)" for j
    using that k zero none by (cases "j = j0") (simp_all add: tr keeps_time_def)
  have a0: "notes_ahead s0" using k a by (rule keeps_time_ahead)
  show "notes_ahead s'"
    unfolding notes_ahead_def
  proof (intro ballI)
    fix t n assume t: "t \<in> set (gTrack s')" and n: "n \<in> set (gNote t)"
    from t have "t = t' \<or> t \<in> set (gTrack s0)"
      using set_update_subset_insert [of "gTrack s0" j0 t'] by (auto simp add: tr)
    then show "gGPos t \<le> pos n"
      using n none a0 by (auto simp add: notes_ahead_def)
  qed
qed

lemma step_split_in:
  assumes "rpos s + 4 < length (rseq e)"
    and "rseq e ! rpos s = 0x88"
    and "gLabels e (curpos_of e s) = None"
    and "unat (rseq e ! (rpos s + 1)) < length (gTrack s)"
  shows "step e i s =
           Inr (DebugMsg ''  Trk %02u started from 0x%X...\<newline>''
                  [U (ucast (gIndx (gTrack s ! unat (rseq e ! (rpos s + 1))))),
                   U ((push_bit 16 (ucast (rseq e ! (rpos s + 2))) OR
                       push_bit 8 (ucast (rseq e ! (rpos s + 3))) OR
                       ucast (rseq e ! (rpos s + 4))) + mdOff e)]
                  (on_trk (unat (rseq e ! (rpos s + 1)))
                     (Start ((push_bit 16 (ucast (rseq e ! (rpos s + 2))) OR
                              push_bit 8 (ucast (rseq e ! (rpos s + 3))) OR
                              ucast (rseq e ! (rpos s + 4))) + mdOff e))
                     (s\<lparr>rpos := rpos s + 5\<rparr>)), True)"
proof -
  have a5: "n + 5 = Suc (Suc (Suc (Suc (Suc n))))" for n :: nat by simp
  from assms show ?thesis
    by (simp add: step_def put_label_None rd_in exec_cmd_def do_split_def rdBE_def ReadBE_8
        ReadBE_24 fgetc_in Let_def add_2_Suc add_3_Suc add_4_Suc a5)
qed

text \<open>
  Claim C8, amended. Take a turn of the loop of track \<open>i\<close> that returns and whose tick
  count (the duration of the note or the length of the wait) added to the tick position
  of the track does not exceed 32 bits, from a state in which every sounding note of
  every track ends at its track's tick position or later. Then the same holds after the
  turn, and the tick position \<^verbatim>\<open>gGPos\<close> of no track decreases, but for the target of a
  split: a split (0x88) sets the tick position of the track it names to 0 and empties
  its sounding notes, and leaves the tick position of every other track as it is.
\<close>

theorem time_never_decreases:
  assumes st: "step e i s = Inr (s', loop)"
    and fits: "unat (gGPos (gTrack s ! i)) + unat (tick_arg e s) < 2 ^ 32"
    and i: "i < length (gTrack s)"
    and ahead: "notes_ahead s"
  shows "length (gTrack s') = length (gTrack s) \<and>
         (\<forall>j < length (gTrack s).
            gGPos (gTrack s ! j) \<le> gGPos (gTrack s' ! j) \<or>
            fst (fgetc (rseq e) (rpos s)) = 0x88 \<and> split_target e s = j \<and>
            gGPos (gTrack s' ! j) = 0 \<and> gNote (gTrack s' ! j) = []) \<and>
         (fst (fgetc (rseq e) (rpos s)) = 0x88 \<longrightarrow>
            split_target e s < length (gTrack s) \<and>
            gGPos (gTrack s' ! split_target e s) = 0 \<and>
            gNote (gTrack s' ! split_target e s) = [] \<and>
            (\<forall>j < length (gTrack s). j \<noteq> split_target e s \<longrightarrow>
               gGPos (gTrack s' ! j) = gGPos (gTrack s ! j))) \<and>
         notes_ahead s'"
proof -
  define s0 where "s0 = put_label e i s"
  have k0: "keeps_time s s0" unfolding s0_def by (rule keeps_time_put_label)
  have g0: "gGPos (gTrack s0 ! i) = gGPos (gTrack s ! i)"
    using k0 i by (simp add: keeps_time_def)
  obtain cmd p where fg: "fgetc (rseq e) (rpos s) = (cmd, p)" by (cases "fgetc (rseq e) (rpos s)")
  have rd0: "rd e s0 = (cmd, s0\<lparr>rpos := p\<rparr>)"
    by (simp add: rd_def s0_def fg)
  show ?thesis
  proof (cases "cmd = 0x88")
    case True
    then have sp: "fst (fgetc (rseq e) (rpos s)) = 0x88" by (simp add: fg)
    from step_split [OF st sp] obtain adr where
      lt: "split_target e s < length (gTrack s)" and
      tr: "gTrack s' = (gTrack s0)[split_target e s := Start adr (gTrack s0 ! split_target e s)]"
      unfolding s0_def by blast
    have len0: "length (gTrack s0) = length (gTrack s)"
      using k0 by (simp add: keeps_time_def)
    have r: "length (gTrack s') = length (gTrack s) \<and>
         (\<forall>j < length (gTrack s).
            gGPos (gTrack s ! j) \<le> gGPos (gTrack s' ! j) \<or>
            j = split_target e s \<and> gGPos (gTrack s' ! j) = 0 \<and> gNote (gTrack s' ! j) = []) \<and>
         notes_ahead s'"
      using k0 ahead tr by (rule track_reset_ok) (simp_all add: Start_def)
    have tgt: "gGPos (gTrack s' ! split_target e s) = 0" "gNote (gTrack s' ! split_target e s) = []"
      using lt len0 by (simp_all add: tr Start_def)
    have others: "gGPos (gTrack s' ! j) = gGPos (gTrack s ! j)"
      if "j < length (gTrack s)" "j \<noteq> split_target e s" for j
      using that k0 by (simp add: tr keeps_time_def)
    from r tgt others lt sp show ?thesis by blast
  next
    case nosplit: False
    then have ns: "fst (fgetc (rseq e) (rpos s)) \<noteq> 0x88" by (simp add: fg)
    have "length (gTrack s') = length (gTrack s) \<and>
         (\<forall>j < length (gTrack s). gGPos (gTrack s ! j) \<le> gGPos (gTrack s' ! j)) \<and>
         notes_ahead s'"
    proof (cases "cmd < 0x80")
      case True
      obtain vel p2 where fg2: "fgetc (rseq e) p = (vel, p2)" by (cases "fgetc (rseq e) p")
      have rd1: "rd e (s0\<lparr>rpos := p\<rparr>) = (vel, s0\<lparr>rpos := p2\<rparr>)"
        by (simp add: rd_def fg2)
      from st True obtain len p3 where rv: "ReadVarLen (rseq e) p2 = Some (len, p3)"
        and s': "s' = on_trk i (mNoteOn cmd vel len) (s0\<lparr>rpos := p3\<rparr>)"
        by (auto simp add: step_def s0_def [symmetric] rd0 rd1 Let_def split: option.splits)
      have "tick_arg e s = len"
        using True by (simp add: tick_arg_def fg fg2 rv)
      with fits g0 have le: "gGPos (gTrack s0 ! i) \<le> gGPos (gTrack s0 ! i) + len"
        by (intro no_wrap) simp
      have a0: "notes_ahead s0" using k0 ahead by (rule keeps_time_ahead)
      have "gTrack s0 ! i \<in> set (gTrack s0)"
        using i k0 by (simp add: keeps_time_def)
      with a0 have old: "\<forall>n \<in> set (gNote (gTrack s0 ! i)). gGPos (gTrack s0 ! i) \<le> pos n"
        by (simp add: notes_ahead_def)
      show ?thesis
        using k0 ahead
      proof (rule track_update_ok)
        show "gTrack s' = (gTrack s0)[i := mNoteOn cmd vel len (gTrack s0 ! i)]"
          by (simp add: s' on_trk_def)
        show "gGPos (gTrack s0 ! i) \<le> gGPos (mNoteOn cmd vel len (gTrack s0 ! i))"
          by (simp add: mNoteOn_time)
        show "\<forall>n \<in> set (gNote (mNoteOn cmd vel len (gTrack s0 ! i))).
                gGPos (mNoteOn cmd vel len (gTrack s0 ! i)) \<le> pos n"
          using old le by (simp add: mNoteOn_time)
      qed
    next
      case False
      then have ex: "step e i s = exec_cmd e i cmd (curpos_of e s) (s0\<lparr>rpos := p\<rparr>)"
        by (simp add: step_def s0_def [symmetric] rd0 Let_def)
      show ?thesis
      proof (cases "cmd = 0x80")
        case True
        from st ex True obtain len p3 where rv: "ReadVarLen (rseq e) p = Some (len, p3)"
          and s': "s' = on_trk i (Wait (qsort e) len) (s0\<lparr>rpos := p3\<rparr>)"
          by (auto simp add: exec_cmd_def split: option.splits)
        have "tick_arg e s = len"
          using True by (simp add: tick_arg_def fg rv)
        with fits g0 have le: "gGPos (gTrack s0 ! i) \<le> gGPos (gTrack s0 ! i) + len"
          by (intro no_wrap) simp
        show ?thesis
          using k0 ahead
        proof (rule track_update_ok)
          show "gTrack s' = (gTrack s0)[i := Wait (qsort e) len (gTrack s0 ! i)]"
            by (simp add: s' on_trk_def)
          show "gGPos (gTrack s0 ! i) \<le> gGPos (Wait (qsort e) len (gTrack s0 ! i))"
            using le by (simp add: Wait_time)
          show "\<forall>n \<in> set (gNote (Wait (qsort e) len (gTrack s0 ! i))).
                  gGPos (Wait (qsort e) len (gTrack s0 ! i)) \<le> pos n"
            using Wait_time(2) [of "qsort e" len "gTrack s0 ! i"]
            by (auto simp add: Wait_time(1) intro: less_imp_le)
        qed
      next
        case False
        with st ex nosplit have "keeps_time (s0\<lparr>rpos := p\<rparr>) s'"
          by (intro exec_cmd_keeps [of e i cmd "curpos_of e s" _ s' loop]) simp_all
        with k0 have "keeps_time s s'"
          by (auto intro: keeps_time_trans [of s "s0\<lparr>rpos := p\<rparr>" s'])
        then show ?thesis using ahead by (rule keeps_time_ok)
      qed
    qed
    with ns show ?thesis by blast
  qed
qed


theorem time_never_decreases_witness:
  "map_option (\<lambda>s. (gGPos (gTrack s ! 0), gNote (gTrack s ! 0), notes_ahead s))
     (run_steps (env_of [60, 100, 96,  0x80, 10,  0x88, 0, 0, 0, 10,  0xFF] False False) 0 1
        (entry_state (env_of [60, 100, 96,  0x80, 10,  0x88, 0, 0, 0, 10,  0xFF] False False))) =
     Some (0, [\<lparr>key = 60, pos = 96\<rparr>], True) \<and>
   map_option (\<lambda>s. (gGPos (gTrack s ! 0), gNote (gTrack s ! 0), notes_ahead s))
     (run_steps (env_of [60, 100, 96,  0x80, 10,  0x88, 0, 0, 0, 10,  0xFF] False False) 0 2
        (entry_state (env_of [60, 100, 96,  0x80, 10,  0x88, 0, 0, 0, 10,  0xFF] False False))) =
     Some (10, [\<lparr>key = 60, pos = 96\<rparr>], True) \<and>
   map_option (\<lambda>s. (gGPos (gTrack s ! 0), gNote (gTrack s ! 0), notes_ahead s))
     (run_steps (env_of [60, 100, 96,  0x80, 10,  0x88, 0, 0, 0, 10,  0xFF] False False) 0 3
        (entry_state (env_of [60, 100, 96,  0x80, 10,  0x88, 0, 0, 0, 10,  0xFF] False False))) =
     Some (0, [], True)"
proof -
  let ?e = "env_of [60, 100, 96,  0x80, 10,  0x88, 0, 0, 0, 10,  0xFF] False False"
  let ?a = "entry_state ?e"
  let ?b = "on_trk 0 (mNoteOn 60 100 96) (?a\<lparr>rpos := 3\<rparr>)"
  let ?c = "on_trk 0 (Wait qsort_stable 10) (?b\<lparr>rpos := 5\<rparr>)"
  let ?d = "DebugMsg ''  Trk %02u started from 0x%X...\<newline>'' [U 0, U 10]
              (on_trk 0 (Start 10) (?c\<lparr>rpos := 10\<rparr>))"
  have e: "rseq ?e = [60, 100, 96,  0x80, 10,  0x88, 0, 0, 0, 10,  0xFF]"
    "qsort ?e = qsort_stable" "gLabels ?e = (\<lambda>_. None)" "mdOff ?e = 0" "rpos ?a = 0"
    by (simp_all add: env_of_def entry_state_facts)
  have ta: "gTrack ?a ! 0 =
      \<lparr>gIndx = 0, gStat = 1, gTrns = 0, gRPNR = 0, gWait = 0, gDPos = 0, gGPos = 0, gRPos = 0,
       gNote = [], gData = []\<rparr>"
    by (simp add: entry_state_facts(3) track0_started e)
  have len: "length (gTrack ?a) = 16" by (simp add: entry_state_facts)
  have tb: "gTrack ?b ! 0 =
      \<lparr>gIndx = 0, gStat = 1, gTrns = 0, gRPNR = 0, gWait = 0, gDPos = 0, gGPos = 0, gRPos = 0,
       gNote = [\<lparr>key = 60, pos = 96\<rparr>], gData = [0, 0x90, 60, 100]\<rparr>"
    by (simp add: on_trk_def len ta mNoteOn_def Event_eq delta_bytes_0 Let_def)
  have tc: "gTrack ?c ! 0 =
      \<lparr>gIndx = 0, gStat = 1, gTrns = 0, gRPNR = 0, gWait = 10, gDPos = 0, gGPos = 10, gRPos = 0,
       gNote = [\<lparr>key = 60, pos = 96\<rparr>], gData = [0, 0x90, 60, 100]\<rparr>"
    using tb by (simp add: on_trk_def len Wait_eq qsort_stable_def reached_def Let_def)
  have td: "gTrack (on_trk 0 (Start 10) (?c\<lparr>rpos := 10\<rparr>)) ! 0 =
      \<lparr>gIndx = 0, gStat = 1, gTrns = 0, gRPNR = 0, gWait = 10, gDPos = 10, gGPos = 0, gRPos = 0,
       gNote = [], gData = []\<rparr>"
    using tc by (simp add: on_trk_def len Start_def)
  have r: "rpos ?a + 3 = 3" "rpos (?b\<lparr>rpos := 3\<rparr>) = 3" "rpos ?b + 2 = 5" "rpos ?c + 5 = 10"
    by (simp_all add: e)
  have ha: "rpos ?a + 2 < length (rseq ?e)" "rseq ?e ! rpos ?a < 0x80"
    "rseq ?e ! (rpos ?a + 2) < 0x80" "gLabels ?e (curpos_of ?e ?a) = None"
    by (simp_all add: e)
  have va: "ucast (rseq ?e ! rpos ?a) = (60 :: u32)" "ucast (rseq ?e ! (rpos ?a + 1)) = (100 :: u32)"
    "ucast (rseq ?e ! (rpos ?a + 2)) = (96 :: u32)"
    by (simp_all add: e)
  have sta: "step ?e 0 ?a = Inr (?b, True)"
    using step_note_short [OF ha, of 0] by (simp only: va r)
  have hb: "rpos ?b + 1 < length (rseq ?e)" "rseq ?e ! rpos ?b = 0x80"
    "rseq ?e ! (rpos ?b + 1) < 0x80" "gLabels ?e (curpos_of ?e ?b) = None"
    by (simp_all add: e)
  have vb: "ucast (rseq ?e ! (rpos ?b + 1)) = (10 :: u32)"
    by (simp add: e)
  have stb: "step ?e 0 ?b = Inr (?c, True)"
    using step_wait_short [OF hb, of 0] by (simp only: vb r e(2))
  have hc: "rpos ?c + 4 < length (rseq ?e)" "rseq ?e ! rpos ?c = 0x88"
    "gLabels ?e (curpos_of ?e ?c) = None" "unat (rseq ?e ! (rpos ?c + 1)) < length (gTrack ?c)"
    by (simp_all add: e len)
  have vc: "unat (rseq ?e ! (rpos ?c + 1)) = 0"
    "(push_bit 16 (ucast (rseq ?e ! (rpos ?c + 2))) OR push_bit 8 (ucast (rseq ?e ! (rpos ?c + 3))) OR
      ucast (rseq ?e ! (rpos ?c + 4))) + mdOff ?e = (10 :: u32)"
    "ucast (gIndx (gTrack ?c ! 0)) = (0 :: u32)"
    by (simp_all add: e tc)
  have stc: "step ?e 0 ?c = Inr (?d, True)"
    using step_split_in [OF hc, of 0] by (simp only: vc r)
  have fa: "unat (gGPos (gTrack ?a ! 0)) + unat (tick_arg ?e ?a) < 2 ^ 32"
    by (simp add: ta e tick_arg_def fgetc_def ReadVarLen_def ReadVarLen_loop.simps)
  have fb: "unat (gGPos (gTrack ?b ! 0)) + unat (tick_arg ?e ?b) < 2 ^ 32"
    by (simp add: tb e tick_arg_def fgetc_def ReadVarLen_def ReadVarLen_loop.simps)
  have fc: "unat (gGPos (gTrack ?c ! 0)) + unat (tick_arg ?e ?c) < 2 ^ 32"
    by (simp add: tc e tick_arg_def fgetc_def ReadVarLen_def ReadVarLen_loop.simps)
  have la: "0 < length (gTrack ?a)" and lb: "0 < length (gTrack ?b)" and lc: "0 < length (gTrack ?c)"
    by (simp_all add: len)
  have aa: "notes_ahead ?a"
    by (simp add: notes_ahead_def entry_state_facts on_trk_def init_state_def reset_tracks_def
        upt_rec Reset_def zero_track_def Start_def)
  from time_never_decreases [OF sta fa la aa] have ab: "notes_ahead ?b" by blast
  from time_never_decreases [OF stb fb lb ab] have ac: "notes_ahead ?c" by blast
  from time_never_decreases [OF stc fc lc ac] have ad: "notes_ahead ?d" by blast
  have r1: "run_steps ?e 0 1 ?a = Some ?b"
    by (simp add: sta)
  have r2: "run_steps ?e 0 2 ?a = Some ?c"
    by (simp add: run_steps_numeral sta stb)
  have r3: "run_steps ?e 0 3 ?a = Some ?d"
    by (simp add: run_steps_numeral sta stb stc)
  show ?thesis
    unfolding r1 r2 r3 by (simp add: ab ac ad tb tc td)
qed

text \<open>
  The claim as stated (for every sequence of operations) fails in three ways. A split
  that names the running track restarts it: after a wait of 10 the tick position is
  10, after the split it is 0. A wait of 0xFFFFFFFF ticks at tick position 1 wraps
  around to 0. And a note of duration 0xFFFFFFFF sounded at tick position 10 is
  registered with end tick 9.
\<close>

theorem time_decreases_counterexample:
  "map_option (\<lambda>s. gGPos (gTrack s ! 0))
     (run_steps (env_of [0x80, 10,  0x88, 0, 0, 0, 7,  0xFF] False False) 0 1
        (entry_state (env_of [0x80, 10,  0x88, 0, 0, 0, 7,  0xFF] False False))) = Some 10 \<and>
   map_option (\<lambda>s. gGPos (gTrack s ! 0))
     (run_steps (env_of [0x80, 10,  0x88, 0, 0, 0, 7,  0xFF] False False) 0 2
        (entry_state (env_of [0x80, 10,  0x88, 0, 0, 0, 7,  0xFF] False False))) = Some 0 \<and>
   map_option (\<lambda>s. gGPos (gTrack s ! 0))
     (run_steps (env_of [0x80, 1,  0x80, 0x8F, 0xFF, 0xFF, 0xFF, 0x7F,  0xFF] False False) 0 1
        (entry_state (env_of [0x80, 1,  0x80, 0x8F, 0xFF, 0xFF, 0xFF, 0x7F,  0xFF] False False))) = Some 1 \<and>
   map_option (\<lambda>s. gGPos (gTrack s ! 0))
     (run_steps (env_of [0x80, 1,  0x80, 0x8F, 0xFF, 0xFF, 0xFF, 0x7F,  0xFF] False False) 0 2
        (entry_state (env_of [0x80, 1,  0x80, 0x8F, 0xFF, 0xFF, 0xFF, 0x7F,  0xFF] False False))) = Some 0 \<and>
   map_option (\<lambda>s. (gGPos (gTrack s ! 0), gNote (gTrack s ! 0)))
     (run_steps (env_of [0x80, 10,  60, 100, 0x8F, 0xFF, 0xFF, 0xFF, 0x7F,  0xFF] False False) 0 2
        (entry_state (env_of [0x80, 10,  60, 100, 0x8F, 0xFF, 0xFF, 0xFF, 0x7F,  0xFF] False False))) =
     Some (10, [\<lparr>key = 60, pos = 9\<rparr>])"
  by (simp add: run_eval run_steps_numeral Wait_def do_split_def rdBE_def ReadBE_8 ReadBE_24 Let_def)

end
